theory Spec2Isabelle
  imports Main "HOL-Library.Sublist"
begin

section \<open>C strings and the libc helpers the crawler uses\<close>

text \<open>
  A C string is the list of its bytes before the terminating NUL; a \<^verbatim>\<open>char*\<close> that may be
  \<^verbatim>\<open>NULL\<close> is a \<open>string option\<close>. The helpers below follow the C library in the "C" locale.
\<close>

text \<open>\<^verbatim>\<open>strrchr(s, c)\<close>: the tail of \<open>s\<close> that starts at the last occurrence of \<open>c\<close>, or
  \<^verbatim>\<open>NULL\<close> when \<open>c\<close> does not occur (the crawler only searches for \<^verbatim>\<open>'.'\<close> and \<^verbatim>\<open>'/'\<close>).\<close>

fun strrchr :: "string \<Rightarrow> char \<Rightarrow> string option" where
  "strrchr [] c = None"
| "strrchr (x # xs) c =
     (case strrchr xs c of
        Some r \<Rightarrow> Some r
      | None \<Rightarrow> if x = c then Some (x # xs) else None)"

text \<open>\<^verbatim>\<open>tolower\<close>: an upper-case letter \<^verbatim>\<open>'A'..'Z'\<close> becomes its lower-case letter, every
  other byte is unchanged.\<close>

definition tolower :: "char \<Rightarrow> char" where
  "tolower c =
     (case map_of (zip ''ABCDEFGHIJKLMNOPQRSTUVWXYZ'' ''abcdefghijklmnopqrstuvwxyz'') c of
        Some l \<Rightarrow> l
      | None \<Rightarrow> c)"

text \<open>\<^verbatim>\<open>strcasecmp(a, b) == 0\<close>: equal after \<^verbatim>\<open>tolower\<close> on every byte.\<close>

definition strcasecmp_eq :: "string \<Rightarrow> string \<Rightarrow> bool" where
  "strcasecmp_eq a b = (map tolower a = map tolower b)"

text \<open>\<^verbatim>\<open>strstr(haystack, needle)\<close>: the tail of the haystack that starts at the first
  occurrence of the needle, or \<^verbatim>\<open>NULL\<close>.\<close>

fun strstr :: "string \<Rightarrow> string \<Rightarrow> string option" where
  "strstr [] n = (if n = [] then Some [] else None)"
| "strstr (h # hs) n = (if prefix n (h # hs) then Some (h # hs) else strstr hs n)"

text \<open>\<^verbatim>\<open>snprintf(buf, n, ...)\<close>: at most \<open>n - 1\<close> bytes of the formatted text are stored
  (and nothing when \<open>n\<close> is 0).\<close>

definition snprintf :: "nat \<Rightarrow> string \<Rightarrow> string" where
  "snprintf n formatted = take (n - 1) formatted"

text \<open>What undefined behaviour of the C code and the end of the fuel are modelled as.\<close>

datatype fault = NULL_DEREFERENCE | OUT_OF_BOUNDS | OUT_OF_FUEL

section \<open>The data model of \<^verbatim>\<open>syntaxes.h\<close>\<close>

text \<open>
  A linked list (\<^verbatim>\<open>next\<close> pointers, \<^verbatim>\<open>NULL\<close> for the empty list) is a HOL list, head
  first; an array with its count field is a list. The derived count fields
  (\<^verbatim>\<open>param_count\<close>, \<^verbatim>\<open>reference_count\<close>, \<^verbatim>\<open>structure_count\<close>, ...) and the pointers into
  the file text (\<^verbatim>\<open>body_start\<close>, \<^verbatim>\<open>body_end\<close>) are left out.
\<close>

datatype LanguageType =
  LANG_RUST | LANG_C | LANG_JAVASCRIPT | LANG_GO | LANG_PYTHON | LANG_JAVA | LANG_PHP | LANG_RUBY

datatype AnalysisLayer = LAYER_MODULE | LAYER_STRUCT | LAYER_METHOD

record Parameter =
  param_name :: "string option"
  param_type :: "string option"
  default_value :: "string option"

datatype Method = Method
  (method_name: "string option")
  (method_prefix: "string option")
  (return_type: "string option")
  (parameters: "Parameter list")
  (method_dependencies: "string option")
  (defined_in: "string option")
  (references: "string option list")
  (children: "Method list")
  (is_static: bool)
  (is_public: bool)
  (is_definition: bool)

record Structure =
  struct_name :: "string option"
  struct_methods :: "Method list"
  implemented_traits :: "string option list"
  dependencies :: "string option"

record ExtractedDependency =
  file_path :: "string option"
  target :: "string option"
  "module_name" :: "string option"
  structures :: "Structure list"
  methods :: "Method list"
  language :: LanguageType
  layer :: AnalysisLayer

record Dependency =
  source :: "string option"
  dep_target :: "string option"
  dep_language :: LanguageType
  level :: AnalysisLayer
  dep_methods :: "Method list"
  method_count :: int

record AnalysisConfig =
  analyzeModules :: int
  analyze_structures :: int
  analyzeMethods :: int
  max_depth :: int
  follow_external :: int

record Relationship =
  rel_from :: string
  rel_to :: string
  relationship_type :: string
  rel_layer :: AnalysisLayer

record DependencyGraph =
  relationships :: "Relationship list"
  current_layer :: AnalysisLayer

definition MAX_DEPENDENCIES :: nat where
  "MAX_DEPENDENCIES = 64"

section \<open>The trace of \<^verbatim>\<open>logr\<close> calls\<close>

text \<open>
  Every \<^verbatim>\<open>logr(level, format, args...)\<close> call of the modelled functions is recorded, in
  order, as the level, the format string and the arguments. (\<^verbatim>\<open>logr\<close> itself then drops
  the entries below the current level and prints the others to \<^verbatim>\<open>stderr\<close>.)
\<close>

datatype LogLevel = VERBOSE | DEBUG | INFO | WARN | ERROR

datatype log_arg = ArgS string | ArgD int | ArgNULL

text \<open>A \<^verbatim>\<open>char*\<close> handed to \<^verbatim>\<open>%s\<close> as it is, \<^verbatim>\<open>NULL\<close> or not.\<close>

definition arg_of :: "string option \<Rightarrow> log_arg" where
  "arg_of p = (case p of None \<Rightarrow> ArgNULL | Some t \<Rightarrow> ArgS t)"

text \<open>The C idiom \<^verbatim>\<open>p ? p : "NULL"\<close>.\<close>

definition or_NULL :: "string option \<Rightarrow> string" where
  "or_NULL p = (case p of None \<Rightarrow> ''NULL'' | Some t \<Rightarrow> t)"

type_synonym log_entry = "LogLevel \<times> string \<times> log_arg list"

section \<open>The language classifier (\<^verbatim>\<open>syntaxes.c\<close>)\<close>

text \<open>The lower-cased copy of the extension: at most 31 bytes fit into \<^verbatim>\<open>ext_lower[32]\<close>.\<close>

definition ext_lower :: "string \<Rightarrow> string" where
  "ext_lower ext = map tolower (take 31 ext)"

text \<open>The chain of \<^verbatim>\<open>strcmp\<close> tests on the lower-cased extension, in the source's order.\<close>

definition match_extension :: "string \<Rightarrow> LanguageType option" where
  "match_extension el =
     (if el = ''rs'' then Some LANG_RUST
      else if el = ''c'' \<or> el = ''h'' \<or> el = ''cpp'' \<or> el = ''hpp'' then Some LANG_C
      else if el = ''js'' \<or> el = ''jsx'' \<or> el = ''ts'' \<or> el = ''tsx'' then Some LANG_JAVASCRIPT
      else if el = ''go'' then Some LANG_GO
      else if el = ''py'' then Some LANG_PYTHON
      else if el = ''java'' then Some LANG_JAVA
      else if el = ''php'' then Some LANG_PHP
      else if el = ''rb'' then Some LANG_RUBY
      else None)"

text \<open>\<^verbatim>\<open>languageType\<close>: the value it returns.\<close>

definition languageType :: "string option \<Rightarrow> LanguageType" where
  "languageType filename =
     (case filename of
        None \<Rightarrow> LANG_RUST
      | Some f \<Rightarrow>
          (case strrchr f CHR ''.'' of
             None \<Rightarrow> LANG_RUST
           | Some ext \<Rightarrow>
               (case match_extension (ext_lower (tl ext)) of
                  Some l \<Rightarrow> l
                | None \<Rightarrow> LANG_RUST)))"

text \<open>\<^verbatim>\<open>languageType\<close>: the \<^verbatim>\<open>logr\<close> calls it makes.\<close>

definition languageType_log :: "string option \<Rightarrow> log_entry list" where
  "languageType_log filename =
     (case filename of
        None \<Rightarrow> []
      | Some f \<Rightarrow>
          (case strrchr f CHR ''.'' of
             None \<Rightarrow> [(DEBUG, ''[Syntaxes] Skipping file without extension: %s'', [ArgS f])]
           | Some ext \<Rightarrow>
               (case match_extension (ext_lower (tl ext)) of
                  Some l \<Rightarrow> []
                | None \<Rightarrow>
                    [(DEBUG, ''[Syntaxes] Unsupported file extension: %s'',
                      [ArgS (ext_lower (tl ext))])])))"

text \<open>
  The classifier as the specification words it: the final extension is the text after the
  last dot of the path, it is compared without regard to case against the table of
  recognised extensions, and an unknown or missing extension gives the default language.
\<close>

definition final_extension :: "string \<Rightarrow> string option" where
  "final_extension p =
     (if CHR ''.'' \<in> set p then Some (rev (takeWhile (\<lambda>c. c \<noteq> CHR ''.'') (rev p))) else None)"

definition extension_table :: "(string \<times> LanguageType) list" where
  "extension_table =
     [(''rs'', LANG_RUST),
      (''c'', LANG_C), (''h'', LANG_C), (''cpp'', LANG_C), (''hpp'', LANG_C),
      (''js'', LANG_JAVASCRIPT), (''jsx'', LANG_JAVASCRIPT), (''ts'', LANG_JAVASCRIPT),
      (''tsx'', LANG_JAVASCRIPT),
      (''go'', LANG_GO), (''py'', LANG_PYTHON), (''java'', LANG_JAVA), (''php'', LANG_PHP),
      (''rb'', LANG_RUBY)]"

definition default_language :: LanguageType where
  "default_language = LANG_RUST"

definition classify :: "string \<Rightarrow> LanguageType" where
  "classify p =
     (case final_extension p of
        None \<Rightarrow> default_language
      | Some e \<Rightarrow>
          (case map_of extension_table (map tolower e) of
             None \<Rightarrow> default_language
           | Some l \<Rightarrow> l))"

section \<open>The relationship graph and its export (\<^verbatim>\<open>syntaxes.c\<close>)\<close>

text \<open>
  \<^verbatim>\<open>graph->relationships[graph->relationship_count++] = rel\<close>: the array was allocated with
  room for \<open>capacity\<close> pointers; a store past its end is undefined behaviour.
\<close>

definition add_relationship ::
  "nat \<Rightarrow> Relationship list \<Rightarrow> Relationship \<Rightarrow> fault + Relationship list" where
  "add_relationship capacity rels rel =
     (if length rels < capacity then Inr (rels @ [rel]) else Inl OUT_OF_BOUNDS)"

text \<open>The module-level relationship of one record (\<^verbatim>\<open>strdup(NULL)\<close> is undefined behaviour).\<close>

definition module_relationship ::
  "nat \<Rightarrow> ExtractedDependency \<Rightarrow> Relationship list \<Rightarrow> fault + Relationship list" where
  "module_relationship capacity dep rels =
     (case module_name dep of
        None \<Rightarrow> Inr rels
      | Some m \<Rightarrow>
          (case file_path dep of
             None \<Rightarrow> Inl NULL_DEREFERENCE
           | Some f \<Rightarrow>
               add_relationship capacity rels
                 \<lparr>rel_from = f, rel_to = m, relationship_type = ''imports'',
                  rel_layer = LAYER_MODULE\<rparr>))"

text \<open>The loop over the structures of one record.\<close>

fun structure_relationships ::
  "nat \<Rightarrow> Structure list \<Rightarrow> Relationship list \<Rightarrow> fault + Relationship list" where
  "structure_relationships capacity [] rels = Inr rels"
| "structure_relationships capacity (curr_struct # rest) rels =
     (case dependencies curr_struct of
        None \<Rightarrow> structure_relationships capacity rest rels
      | Some d \<Rightarrow>
          (case struct_name curr_struct of
             None \<Rightarrow> Inl NULL_DEREFERENCE
           | Some n \<Rightarrow>
               (case add_relationship capacity rels
                       \<lparr>rel_from = n, rel_to = d, relationship_type = ''inherits'',
                        rel_layer = LAYER_STRUCT\<rparr> of
                  Inl e \<Rightarrow> Inl e
                | Inr rels' \<Rightarrow> structure_relationships capacity rest rels')))"

text \<open>The loop over the methods of one record.\<close>

fun method_relationships ::
  "nat \<Rightarrow> Method list \<Rightarrow> Relationship list \<Rightarrow> fault + Relationship list" where
  "method_relationships capacity [] rels = Inr rels"
| "method_relationships capacity (curr_method # rest) rels =
     (case method_dependencies curr_method of
        None \<Rightarrow> method_relationships capacity rest rels
      | Some d \<Rightarrow>
          (case method_name curr_method of
             None \<Rightarrow> Inl NULL_DEREFERENCE
           | Some n \<Rightarrow>
               (case add_relationship capacity rels
                       \<lparr>rel_from = n, rel_to = d, relationship_type = ''calls'',
                        rel_layer = LAYER_METHOD\<rparr> of
                  Inl e \<Rightarrow> Inl e
                | Inr rels' \<Rightarrow> method_relationships capacity rest rels')))"

text \<open>
  The loop \<^verbatim>\<open>for (i = 0; i < dep_count; i++)\<close> over \<^verbatim>\<open>deps[i]\<close>: the second argument counts
  the iterations left, the list is the rest of the array (reading past its end is undefined
  behaviour), a \<^verbatim>\<open>NULL\<close> entry is skipped.
\<close>

fun dependency_relationships ::
  "nat \<Rightarrow> nat \<Rightarrow> ExtractedDependency option list \<Rightarrow> Relationship list \<Rightarrow>
   fault + Relationship list" where
  "dependency_relationships capacity 0 deps rels = Inr rels"
| "dependency_relationships capacity (Suc k) [] rels = Inl OUT_OF_BOUNDS"
| "dependency_relationships capacity (Suc k) (None # deps) rels =
     dependency_relationships capacity k deps rels"
| "dependency_relationships capacity (Suc k) (Some dep # deps) rels =
     (case module_relationship capacity dep rels of
        Inl e \<Rightarrow> Inl e
      | Inr rels1 \<Rightarrow>
          (case structure_relationships capacity (structures dep) rels1 of
             Inl e \<Rightarrow> Inl e
           | Inr rels2 \<Rightarrow>
               (case method_relationships capacity (methods dep) rels2 of
                  Inl e \<Rightarrow> Inl e
                | Inr rels3 \<Rightarrow> dependency_relationships capacity k deps rels3)))"

text \<open>\<^verbatim>\<open>create_dependency_graph(deps, dep_count)\<close>; \<open>Inr None\<close> is the \<^verbatim>\<open>NULL\<close> result.\<close>

definition create_dependency_graph ::
  "ExtractedDependency option list option \<Rightarrow> int \<Rightarrow> fault + DependencyGraph option" where
  "create_dependency_graph deps dep_count =
     (case deps of
        None \<Rightarrow> Inr None
      | Some ds \<Rightarrow>
          if dep_count \<le> 0 then Inr None
          else
            (case dependency_relationships (nat dep_count * MAX_DEPENDENCIES) (nat dep_count)
                    ds [] of
               Inl e \<Rightarrow> Inl e
             | Inr rels \<Rightarrow> Inr (Some \<lparr>relationships = rels, current_layer = LAYER_MODULE\<rparr>)))"

text \<open>
  Where a relationship comes from: the module name of a record, a structure of a record with
  a dependency text, or a method of a record with a dependency text.
\<close>

definition module_origin :: "ExtractedDependency \<Rightarrow> Relationship \<Rightarrow> bool" where
  "module_origin dep rel =
     (file_path dep = Some (rel_from rel) \<and> module_name dep = Some (rel_to rel))"

definition structure_origin :: "ExtractedDependency \<Rightarrow> Relationship \<Rightarrow> bool" where
  "structure_origin dep rel =
     (\<exists>st \<in> set (structures dep).
        struct_name st = Some (rel_from rel) \<and> dependencies st = Some (rel_to rel))"

definition method_origin :: "ExtractedDependency \<Rightarrow> Relationship \<Rightarrow> bool" where
  "method_origin dep rel =
     (\<exists>m \<in> set (methods dep).
        method_name m = Some (rel_from rel) \<and> method_dependencies m = Some (rel_to rel))"

definition layered_origin :: "ExtractedDependency \<Rightarrow> Relationship \<Rightarrow> bool" where
  "layered_origin dep r =
     ((module_origin dep r \<and> relationship_type r = ''imports'' \<and> rel_layer r = LAYER_MODULE) \<or>
      (structure_origin dep r \<and> relationship_type r = ''inherits'' \<and> rel_layer r = LAYER_STRUCT) \<or>
      (method_origin dep r \<and> relationship_type r = ''calls'' \<and> rel_layer r = LAYER_METHOD))"

text \<open>The line \<^verbatim>\<open>fprintf\<close> writes for one relationship of the DOT export.\<close>

definition dot_line :: "Relationship \<Rightarrow> string" where
  \<open>dot_line rel =
     ''  "'' @ rel_from rel @ ''" -> "'' @ rel_to rel @ ''" [label="'' @ relationship_type rel @
     ''"];'' @ [CHR 0x0A]\<close>

text \<open>\<^verbatim>\<open>%d\<close> of a layer: the value of the enumerator.\<close>

definition layer_digits :: "AnalysisLayer \<Rightarrow> string" where
  "layer_digits l = (case l of LAYER_MODULE \<Rightarrow> ''0'' | LAYER_STRUCT \<Rightarrow> ''1'' | LAYER_METHOD \<Rightarrow> ''2'')"

text \<open>The lines of the JSON export, one object per relationship, a comma after all but the last.\<close>

fun json_entries :: "Relationship list \<Rightarrow> string" where
  \<open>json_entries [] = []\<close>
| \<open>json_entries (rel # rest) =
     ''    {'' @ [CHR 0x0A] @
     ''      "from": "'' @ rel_from rel @ ''",'' @ [CHR 0x0A] @
     ''      "to": "'' @ rel_to rel @ ''",'' @ [CHR 0x0A] @
     ''      "type": "'' @ relationship_type rel @ ''",'' @ [CHR 0x0A] @
     ''      "layer": '' @ layer_digits (rel_layer rel) @ [CHR 0x0A] @
     ''    }'' @ (if rest = [] then [] else '','') @ [CHR 0x0A] @
     json_entries rest\<close>

text \<open>
  \<^verbatim>\<open>exportGraph(graph, format, output_path)\<close>: \<open>can_write\<close> tells whether
  \<^verbatim>\<open>fopen(output_path, "w")\<close> succeeds; the result is the file opened and the bytes written to
  it, or \<open>None\<close> when no file was opened.
\<close>

definition exportGraph ::
  "(string \<Rightarrow> bool) \<Rightarrow> DependencyGraph option \<Rightarrow> string option \<Rightarrow> string option \<Rightarrow>
   (string \<times> string) option" where
  \<open>exportGraph can_write graph format output_path =
     (case graph of
        None \<Rightarrow> None
      | Some g \<Rightarrow>
          (case format of
             None \<Rightarrow> None
           | Some fmt \<Rightarrow>
               (case output_path of
                  None \<Rightarrow> None
                | Some path \<Rightarrow>
                    if \<not> can_write path then None
                    else if fmt = ''dot'' then
                      Some (path,
                        ''digraph Dependencies {'' @ [CHR 0x0A] @
                        concat (map dot_line (relationships g)) @
                        ''}'' @ [CHR 0x0A])
                    else if fmt = ''json'' then
                      Some (path,
                        ''{'' @ [CHR 0x0A] @ ''  "relationships": ['' @ [CHR 0x0A] @
                        json_entries (relationships g) @
                        ''  ]'' @ [CHR 0x0A] @ ''}'' @ [CHR 0x0A])
                    else Some (path, []))))\<close>

section \<open>The crawler (\<^verbatim>\<open>crawler.c\<close>)\<close>

subsection \<open>The world the crawler runs in\<close>

text \<open>
  The file system and the functions of the repository that \<^verbatim>\<open>crawler.c\<close> calls but whose
  code is in other files are parameters of the model: \<open>stat\<close> gives the kind of a path
  (\<open>None\<close>: \<^verbatim>\<open>stat\<close> fails), \<open>opendir\<close> the entry names \<^verbatim>\<open>readdir\<close> returns, in its order
  (\<open>None\<close>: \<^verbatim>\<open>opendir\<close> fails), \<open>read_file\<close> the text \<^verbatim>\<open>fopen\<close> and \<^verbatim>\<open>fread\<close> deliver (\<open>None\<close>:
  \<^verbatim>\<open>fopen\<close> fails). The grammar of a language is an opaque value of type \<open>'g\<close>, and the three
  layer extractors are functions of the text, the path and the grammar.

  The two functions of \<^verbatim>\<open>analyzers.h\<close> that build the nodes of module and structure records
  are parameters too, seen through the lists of nodes they leave:
  \<open>create_dependency_from_extracted\<close> gives the list that the node it returns is the head of
  (\<open>[]\<close> when it returns \<^verbatim>\<open>NULL\<close>); \<open>graphDependency\<close> is handed the head of the graph and gives
  the list this head leads to after the call.
\<close>

datatype file_kind = Regular | Directory | Other

record 'g env =
  stat :: "string \<Rightarrow> file_kind option"
  opendir :: "string \<Rightarrow> string list option"
  read_file :: "string \<Rightarrow> string option"
  languageGrammars :: "LanguageType \<Rightarrow> 'g option"
  analyzeModule :: "string \<Rightarrow> 'g \<Rightarrow> ExtractedDependency list"
  analyze_structure :: "string \<Rightarrow> string \<Rightarrow> 'g \<Rightarrow> Structure list"
  analyzeMethod :: "string \<Rightarrow> string \<Rightarrow> 'g \<Rightarrow> Method list"
  create_dependency_from_extracted :: "ExtractedDependency \<Rightarrow> Dependency list"
  graphDependency :: "Dependency list \<Rightarrow> ExtractedDependency \<Rightarrow> Dependency list"

text \<open>
  The crawler object: the array \<^verbatim>\<open>root_directories\<close> (\<open>None\<close>: a \<^verbatim>\<open>NULL\<close> array) with its
  \<^verbatim>\<open>directory_count\<close>, the configuration and the dependency graph, the linked list of
  \<^verbatim>\<open>Dependency\<close> nodes from its head (\<open>[]\<close>: \<^verbatim>\<open>NULL\<close>).
\<close>

record DependencyCrawler =
  root_directories :: "string option list option"
  directory_count :: int
  analysis_config :: AnalysisConfig
  dependency_graph :: "Dependency list"

text \<open>
  The state the functions of \<^verbatim>\<open>crawler.c\<close> work on: what their \<^verbatim>\<open>crawler\<close> argument points to
  (\<open>None\<close>: the argument is \<^verbatim>\<open>NULL\<close>), the trace of \<^verbatim>\<open>logr\<close> calls, and the results of the
  coming \<^verbatim>\<open>malloc\<close> calls whose result the source checks (\<open>False\<close>: \<^verbatim>\<open>NULL\<close>; once the list
  is used up every allocation succeeds). The allocations the source does not check
  (\<^verbatim>\<open>strdup\<close>) succeed.
\<close>

record state =
  crawler :: "DependencyCrawler option"
  trace :: "log_entry list"
  malloc_results :: "bool list"

definition logr :: "LogLevel \<Rightarrow> string \<Rightarrow> log_arg list \<Rightarrow> state \<Rightarrow> state" where
  "logr lvl fmt args s = s\<lparr>trace := trace s @ [(lvl, fmt, args)]\<rparr>"

definition malloc :: "state \<Rightarrow> bool \<times> state" where
  "malloc s =
     (case malloc_results s of
        [] \<Rightarrow> (True, s)
      | ok # rest \<Rightarrow> (ok, s\<lparr>malloc_results := rest\<rparr>))"

subsection \<open>The graph assembler\<close>

text \<open>Modelled from the spec: \<^verbatim>\<open>countMethods\<close> is declared in \<^verbatim>\<open>analyzers.h\<close> and its code is
  not among the sources; section 4.5 says that the count of merged method nodes is tracked
  per Dependency, so it is the number of nodes of the list it is given.\<close>

definition countMethods :: "Method list \<Rightarrow> int" where
  "countMethods ms = int (length ms)"

text \<open>
  The merge of a module or structure record in \<^verbatim>\<open>processLayer\<close> (lines 129 to 135 and 202 to
  208): \<open>created\<close> and \<open>added\<close> are the messages of the two branches. Into the empty graph
  the node \<^verbatim>\<open>create_dependency_from_extracted\<close> returns becomes the graph; otherwise
  \<^verbatim>\<open>graphDependency\<close> is called on the head, and \<^verbatim>\<open>crawler->dependency_graph\<close> is not assigned.
\<close>

definition add_to_graph ::
  "'g env \<Rightarrow> ExtractedDependency \<Rightarrow> string \<Rightarrow> string \<Rightarrow> state \<Rightarrow> state" where
  "add_to_graph env extracted created added s =
     (case crawler s of
        None \<Rightarrow> s
      | Some c \<Rightarrow>
          if dependency_graph c = [] then
            logr VERBOSE created []
              (s\<lparr>crawler :=
                   Some (c\<lparr>dependency_graph :=
                            create_dependency_from_extracted env extracted\<rparr>)\<rparr>)
          else
            logr VERBOSE added []
              (s\<lparr>crawler :=
                   Some (c\<lparr>dependency_graph :=
                            graphDependency env (dependency_graph c) extracted\<rparr>)\<rparr>))"

text \<open>\<^verbatim>\<open>graphMethods(crawler, file_path, methods)\<close>; \<^verbatim>\<open>memset\<close> leaves the target \<^verbatim>\<open>NULL\<close> and the
  language 0, which is \<^verbatim>\<open>LANG_RUST\<close>.\<close>

definition graphMethods :: "state \<Rightarrow> string option \<Rightarrow> Method list \<Rightarrow> state" where
  "graphMethods s fpath ms =
     (case crawler s of
        None \<Rightarrow> s
      | Some c \<Rightarrow>
          (case fpath of
             None \<Rightarrow> s
           | Some fp \<Rightarrow>
               if ms = [] then s
               else
                 let s1 = logr VERBOSE ''[Crawler] Adding methods to dependency graph from %s''
                            [ArgS fp] s;
                     m = malloc s1
                 in
                   if \<not> fst m then
                     logr ERROR ''[Crawler] Failed to allocate memory for dependency'' []
                       (snd m)
                   else
                     let dep = \<lparr>source = Some fp, dep_target = None, dep_language = LANG_RUST,
                                level = LAYER_METHOD, dep_methods = ms,
                                method_count = countMethods ms\<rparr>;
                         s3 = (snd m)\<lparr>crawler :=
                                   Some (c\<lparr>dependency_graph :=
                                            (if dependency_graph c = [] then [dep]
                                             else dep # dependency_graph c)\<rparr>)\<rparr>
                     in
                       logr DEBUG ''[Crawler] Added %d methods from %s to dependency graph''
                         [ArgD (method_count dep), ArgS fp] s3))"

subsection \<open>The two merges at the level of pointers\<close>

text \<open>
  Which node is the head of the graph after a merge is a question about pointers. Here the
  \<^verbatim>\<open>Dependency\<close> nodes live at addresses, each with its \<^verbatim>\<open>next\<close> pointer, and
  \<open>graph_head\<close> is \<^verbatim>\<open>crawler->dependency_graph\<close>.
\<close>

type_synonym addr = nat

record dependency_node =
  node_fields :: Dependency
  "next" :: "addr option"

record graph_memory =
  allocated :: "addr \<Rightarrow> dependency_node option"
  graph_head :: "addr option"

text \<open>The node \<^verbatim>\<open>graphMethods\<close> builds for a file and its methods.\<close>

definition method_node :: "string \<Rightarrow> Method list \<Rightarrow> Dependency" where
  "method_node fp ms =
     \<lparr>source = Some fp, dep_target = None, dep_language = LANG_RUST, level = LAYER_METHOD,
      dep_methods = ms, method_count = countMethods ms\<rparr>"

text \<open>\<^verbatim>\<open>graphMethods\<close> (lines 651 to 680) with a crawler that is not \<^verbatim>\<open>NULL\<close>; \<open>new\<close> is what
  \<^verbatim>\<open>malloc\<close> returned for the node.\<close>

definition graphMethods_at ::
  "addr option \<Rightarrow> string option \<Rightarrow> Method list \<Rightarrow> graph_memory \<Rightarrow> graph_memory" where
  "graphMethods_at new fpath ms m =
     (case fpath of
        None \<Rightarrow> m
      | Some fp \<Rightarrow>
          if ms = [] then m
          else
            (case new of
               None \<Rightarrow> m
             | Some a \<Rightarrow>
                 (case graph_head m of
                    None \<Rightarrow>
                      m\<lparr>allocated :=
                          (allocated m)(a \<mapsto> \<lparr>node_fields = method_node fp ms, next = None\<rparr>),
                        graph_head := Some a\<rparr>
                  | Some h \<Rightarrow>
                      m\<lparr>allocated :=
                          (allocated m)(a \<mapsto> \<lparr>node_fields = method_node fp ms, next = Some h\<rparr>),
                        graph_head := Some a\<rparr>)))"

text \<open>
  The merge of a module or structure record (lines 129 to 135 and 202 to 208). The two
  functions of \<^verbatim>\<open>analyzers.h\<close> are parameters: \<open>create\<close> gives the memory after
  \<^verbatim>\<open>create_dependency_from_extracted\<close> and the pointer it returns, \<open>graph\<close> the memory after
  \<^verbatim>\<open>graphDependency\<close>, which is handed the value of the head pointer.
\<close>

definition add_to_graph_at ::
  "((addr \<Rightarrow> dependency_node option) \<Rightarrow> ExtractedDependency \<Rightarrow>
      (addr \<Rightarrow> dependency_node option) \<times> addr option) \<Rightarrow>
   ((addr \<Rightarrow> dependency_node option) \<Rightarrow> addr \<Rightarrow> ExtractedDependency \<Rightarrow>
      (addr \<Rightarrow> dependency_node option)) \<Rightarrow>
   ExtractedDependency \<Rightarrow> graph_memory \<Rightarrow> graph_memory" where
  "add_to_graph_at create graph extracted m =
     (case graph_head m of
        None \<Rightarrow>
          (let r = create (allocated m) extracted
           in \<lparr>allocated = fst r, graph_head = snd r\<rparr>)
      | Some h \<Rightarrow> m\<lparr>allocated := graph (allocated m) h extracted\<rparr>)"

text \<open>The pointer \<open>p\<close> leads through the nodes at the given addresses with the given fields,
  in this order, to \<^verbatim>\<open>NULL\<close>.\<close>

primrec linked ::
  "(addr \<Rightarrow> dependency_node option) \<Rightarrow> addr option \<Rightarrow> (addr \<times> Dependency) list \<Rightarrow> bool" where
  "linked h p [] = (p = None)"
| "linked h p (x # xs) =
     (p = Some (fst x) \<and>
      (case h (fst x) of
         None \<Rightarrow> False
       | Some n \<Rightarrow> node_fields n = snd x \<and> linked h (next n) xs))"

subsection \<open>The cross-reference resolver (\<^verbatim>\<open>processLayer\<close>, lines 160 to 199)\<close>

text \<open>The body of the inner loop: one module record against the structure at hand.\<close>

definition resolve_dependency ::
  "ExtractedDependency \<Rightarrow> state \<times> Structure \<Rightarrow> state \<times> Structure" where
  "resolve_dependency curr_dep p =
     (let s = fst p; curr_struct = snd p;
          s1 = logr VERBOSE ''[Crawler] Checking type dependency: %s''
                 [ArgS (or_NULL (target curr_dep))] s
      in
        case target curr_dep of
          None \<Rightarrow> (s1, curr_struct)
        | Some t \<Rightarrow>
            (case dependencies curr_struct of
               None \<Rightarrow> (s1, curr_struct)
             | Some d \<Rightarrow>
                 if strstr d t = None then (s1, curr_struct)
                 else
                   let s2 = logr VERBOSE ''[Crawler] Found type source: %s in %s''
                              [ArgS d, arg_of (file_path curr_dep)] s1;
                       new_len = (case file_path curr_dep of None \<Rightarrow> 0 | Some f \<Rightarrow> length f) +
                                 length d + 2;
                       m = malloc s2
                   in
                     if fst m then
                       let full_dep =
                             snprintf new_len
                               ((case file_path curr_dep of None \<Rightarrow> [] | Some f \<Rightarrow> f) @ '':'' @ d);
                           s4 = logr VERBOSE ''[Crawler] Updated dependency info: %s''
                                  [ArgS full_dep] (snd m)
                       in (s4, curr_struct\<lparr>dependencies := Some full_dep\<rparr>)
                     else
                       (logr ERROR ''[Crawler] Failed to allocate memory for full dependency''
                          [] (snd m),
                        curr_struct)))"

text \<open>The body of the outer loop: the module extractor is run again on the text of the file
  and every record it gives is checked against the structure, in order.\<close>

definition resolve_structure ::
  "'g env \<Rightarrow> string \<Rightarrow> 'g \<Rightarrow> Structure \<Rightarrow> state \<Rightarrow> state \<times> Structure" where
  "resolve_structure env content grammar curr_struct s =
     fold resolve_dependency (analyzeModule env content grammar)
       (logr VERBOSE ''[Crawler] Processing structure: %s''
          [ArgS (or_NULL (struct_name curr_struct))] s,
        curr_struct)"

fun resolve_structures ::
  "'g env \<Rightarrow> string \<Rightarrow> 'g \<Rightarrow> Structure list \<Rightarrow> state \<Rightarrow> state \<times> Structure list" where
  "resolve_structures env content grammar [] s = (s, [])"
| "resolve_structures env content grammar (curr_struct # rest) s =
     (let r = resolve_structure env content grammar curr_struct s;
          rs = resolve_structures env content grammar rest (fst r)
      in (fst rs, snd r # snd rs))"

subsection \<open>\<^verbatim>\<open>processLayer\<close>\<close>

text \<open>
  The three blocks of \<^verbatim>\<open>processLayer\<close>. A block that makes the function return early (a
  failed allocation) gives \<open>Inl\<close> of the state at the return, a block that runs to its end
  gives \<open>Inr\<close>.
\<close>

text \<open>The loop over the module records of the file (lines 111 to 139).\<close>

fun graph_modules ::
  "'g env \<Rightarrow> string \<Rightarrow> ExtractedDependency list \<Rightarrow> state \<Rightarrow> state + state" where
  "graph_modules env filepath [] s = Inr s"
| "graph_modules env filepath (current_dep # rest) s =
     (let s1 = logr VERBOSE ''[Crawler] Processing module dependency: %s''
                 [ArgS (or_NULL (target current_dep))] s;
          m = malloc s1
      in
        if \<not> fst m then
          Inl (logr ERROR ''[Crawler] Failed to allocate memory for temporary dependency'' []
                 (snd m))
        else
          let temp_dep = \<lparr>file_path = Some filepath, target = target current_dep,
                          module_name = None, structures = [], methods = [],
                          language = LANG_RUST, layer = LAYER_MODULE\<rparr>;
              s3 = logr VERBOSE ''[Crawler] Adding module dependency to graph: %s -> %s''
                     [ArgS filepath, ArgS (or_NULL (target temp_dep))] (snd m)
          in
            graph_modules env filepath rest
              (add_to_graph env temp_dep ''[Crawler] Created new dependency graph''
                 ''[Crawler] Added to existing dependency graph'' s3))"

definition process_modules ::
  "'g env \<Rightarrow> AnalysisConfig \<Rightarrow> string \<Rightarrow> string \<Rightarrow> 'g \<Rightarrow> state \<Rightarrow> state + state" where
  "process_modules env cfg filepath content grammar s =
     (if analyzeModules cfg \<noteq> 0 then
        graph_modules env filepath (analyzeModule env content grammar)
          (logr VERBOSE ''[Crawler] Analyzing modules for file: %s'' [ArgS filepath] s)
      else Inr s)"

text \<open>The structure block (lines 143 to 212).\<close>

definition process_structures ::
  "'g env \<Rightarrow> AnalysisConfig \<Rightarrow> string \<Rightarrow> string \<Rightarrow> 'g \<Rightarrow> state \<Rightarrow> state + state" where
  "process_structures env cfg filepath content grammar s =
     (if analyze_structures cfg \<noteq> 0 then
        let s0 = logr VERBOSE ''[Crawler] Analyzing structures in %s'' [ArgS filepath] s;
            structs = analyze_structure env content filepath grammar
        in
          if structs = [] then Inr s0
          else
            let s1 = logr VERBOSE ''[Crawler] Found structure dependencies'' [] s0;
                m = malloc s1
            in
              if \<not> fst m then
                Inl (logr ERROR ''[Crawler] Failed to allocate memory for structure dependency''
                       [] (snd m))
              else
                let r = resolve_structures env content grammar structs (snd m);
                    struct_dep = \<lparr>file_path = Some filepath, target = None, module_name = None,
                                  structures = snd r, methods = [], language = LANG_RUST,
                                  layer = LAYER_STRUCT\<rparr>;
                    s4 = logr VERBOSE ''[Crawler] Adding structure dependencies to graph'' []
                           (fst r)
                in
                  Inr (add_to_graph env struct_dep
                         ''[Crawler] Created new dependency graph for structures''
                         ''[Crawler] Added structures to existing dependency graph'' s4)
      else Inr s)"

text \<open>The method block (lines 215 to 225).\<close>

definition process_methods ::
  "'g env \<Rightarrow> AnalysisConfig \<Rightarrow> string \<Rightarrow> string \<Rightarrow> 'g \<Rightarrow> state \<Rightarrow> state" where
  "process_methods env cfg filepath content grammar s =
     (if analyzeMethods cfg \<noteq> 0 then
        let s0 = logr VERBOSE ''[Crawler] Analyzing methods in %s'' [ArgS filepath] s;
            ms = analyzeMethod env filepath content grammar
        in
          if ms \<noteq> [] then
            logr VERBOSE ''[Crawler] Added methods to dependency graph'' []
              (graphMethods s0 (Some filepath) ms)
          else s0
      else s)"

definition processLayer ::
  "'g env \<Rightarrow> state \<Rightarrow> string option \<Rightarrow> string option \<Rightarrow> 'g option \<Rightarrow> state" where
  "processLayer env s filepath content grammar =
     (case (crawler s, filepath, content, grammar) of
        (Some c, Some fp, Some ct, Some gr) \<Rightarrow>
          (let cfg = analysis_config c;
               s0 = logr VERBOSE ''[Crawler] Processing layer for file: %s'' [ArgS fp] s
           in
             case process_modules env cfg fp ct gr s0 of
               Inl r \<Rightarrow> r
             | Inr s1 \<Rightarrow>
                 (case process_structures env cfg fp ct gr s1 of
                    Inl r \<Rightarrow> r
                  | Inr s2 \<Rightarrow>
                      logr VERBOSE ''[Crawler] Finished processing layer for file: %s'' [ArgS fp]
                        (process_methods env cfg fp ct gr s2)))
      | _ \<Rightarrow> logr ERROR ''[Crawler] Invalid parameters passed to processLayer'' [] s)"

subsection \<open>\<^verbatim>\<open>processFile\<close>\<close>

text \<open>The chain of \<^verbatim>\<open>strcasecmp\<close> tests on the extension (lines 243 to 253).\<close>

definition skip_extension :: "string \<Rightarrow> bool" where
  "skip_extension ext =
     (strcasecmp_eq ext ''txt'' \<or> strcasecmp_eq ext ''md'' \<or> strcasecmp_eq ext ''json'' \<or>
      strcasecmp_eq ext ''yml'' \<or> strcasecmp_eq ext ''yaml'' \<or> strcasecmp_eq ext ''xml'' \<or>
      strcasecmp_eq ext ''csv'' \<or> strcasecmp_eq ext ''log'' \<or> strcasecmp_eq ext ''LICENSE'' \<or>
      strcasecmp_eq ext ''gitignore'' \<or> strcasecmp_eq ext ''lock'')"

definition processFile :: "'g env \<Rightarrow> state \<Rightarrow> string option \<Rightarrow> state" where
  "processFile env s fpath =
     (case crawler s of
        None \<Rightarrow> s
      | Some c \<Rightarrow>
          (case fpath of
             None \<Rightarrow> s
           | Some fp \<Rightarrow>
               (case strrchr fp CHR ''.'' of
                  None \<Rightarrow>
                    logr DEBUG ''[Crawler] Skipping file without extension: %s'' [ArgS fp] s
                | Some dot_ext \<Rightarrow>
                    let ext = tl dot_ext in
                      if skip_extension ext then
                        logr DEBUG ''[Crawler] Skipping non-source file: %s'' [ArgS fp] s
                      else
                        let s1 = logr INFO
                                   ''[Crawler] Attempting to process file: %s (extension: %s)''
                                   [ArgS fp, ArgS ext] s
                        in
                          (case read_file env fp of
                             None \<Rightarrow>
                               logr ERROR ''[Crawler] Failed to open file: %s'' [ArgS fp] s1
                           | Some content \<Rightarrow>
                               let m = malloc s1 in
                                 if \<not> fst m then
                                   logr ERROR
                                     ''[Crawler] Failed to allocate memory for file content'' []
                                     (snd m)
                                 else
                                   let lang_type = languageType (Some fp);
                                       s3 = (snd m)\<lparr>trace := trace (snd m) @
                                                                languageType_log (Some fp)\<rparr>
                                   in
                                     (case languageGrammars env lang_type of
                                        None \<Rightarrow> s3
                                      | Some grammar \<Rightarrow>
                                          processLayer env s3 (Some fp) (Some content)
                                            (Some grammar))))))"

subsection \<open>\<^verbatim>\<open>crawlDir\<close> and \<^verbatim>\<open>crawlDeps\<close>\<close>

text \<open>The name after the last slash of a path, or the path when it has no slash.\<close>

definition dir_name :: "string \<Rightarrow> string" where
  "dir_name path = (case strrchr path CHR ''/'' of None \<Rightarrow> path | Some r \<Rightarrow> tl r)"

definition skip_directory :: "string \<Rightarrow> bool" where
  "skip_directory name =
     (name = ''node_modules'' \<or> name = ''.git'' \<or> name = ''build'' \<or> name = ''dist'' \<or>
      name = ''target'' \<or> name = ''vendor'')"

text \<open>The test on an entry name: \<^verbatim>\<open>d_name[0] == '.'\<close> or the name is \<^verbatim>\<open>".."\<close>.\<close>

definition hidden_entry :: "string \<Rightarrow> bool" where
  "hidden_entry d_name =
     ((case d_name of [] \<Rightarrow> False | c # _ \<Rightarrow> c = CHR ''.'') \<or> d_name = ''..'')"

text \<open>
  The recursion of \<^verbatim>\<open>crawlDir\<close> follows the directory structure and nothing bounds it, so
  the model takes fuel: the number of nested \<^verbatim>\<open>crawlDir\<close> calls it may make. \<open>crawl_entries\<close>
  is the \<^verbatim>\<open>readdir\<close> loop on the entries still to come; \<^verbatim>\<open>full_path\<close> has 1024 bytes.
\<close>

fun crawlDir :: "nat \<Rightarrow> 'g env \<Rightarrow> state \<Rightarrow> string option \<Rightarrow> fault + state"
  and crawl_entries :: "nat \<Rightarrow> 'g env \<Rightarrow> state \<Rightarrow> string \<Rightarrow> string list \<Rightarrow> fault + state" where
  "crawlDir 0 env s path = Inl OUT_OF_FUEL"
| "crawlDir (Suc fuel) env s path =
     (case (crawler s, path) of
        (Some c, Some p) \<Rightarrow>
          (case stat env p of
             None \<Rightarrow> Inr (logr ERROR ''[Crawler] Failed to stat path: %s'' [ArgS p] s)
           | Some Regular \<Rightarrow>
               Inr (processFile env (logr DEBUG ''[Crawler] Processing file: %s'' [ArgS p] s)
                      (Some p))
           | Some Directory \<Rightarrow>
               (let s1 = logr INFO ''[Crawler] Opening directory: %s'' [ArgS p] s in
                  case opendir env p of
                    None \<Rightarrow>
                      Inr (logr ERROR ''[Crawler] Failed to open directory: %s'' [ArgS p] s1)
                  | Some entries \<Rightarrow>
                      if skip_directory (dir_name p) then
                        Inr (logr DEBUG ''[Crawler] Skipping non-source directory: %s''
                               [ArgS p] s1)
                      else crawl_entries fuel env s1 p entries)
           | Some Other \<Rightarrow>
               Inr (logr DEBUG ''[Crawler] Skipping non-regular file/directory: %s'' [ArgS p] s))
      | _ \<Rightarrow> Inr (logr ERROR ''[Crawler] Invalid parameters in crawlDir'' [] s))"
| "crawl_entries fuel env s path [] = Inr s"
| "crawl_entries fuel env s path (d_name # rest) =
     (if hidden_entry d_name then crawl_entries fuel env s path rest
      else
        let full_path = snprintf 1024 (path @ ''/'' @ d_name);
            s1 = logr DEBUG ''[Crawler] Found entry: %s'' [ArgS full_path] s
        in
          case crawlDir fuel env s1 (Some full_path) of
            Inl e \<Rightarrow> Inl e
          | Inr s2 \<Rightarrow> crawl_entries fuel env s2 path rest)"

text \<open>
  The loop of \<^verbatim>\<open>crawlDeps\<close> over \<^verbatim>\<open>root_directories[i]\<close>: \<open>i\<close> is the index, the fourth argument
  counts the iterations left and the list is the rest of the array.
\<close>

fun crawl_roots ::
  "nat \<Rightarrow> 'g env \<Rightarrow> int \<Rightarrow> nat \<Rightarrow> string option list \<Rightarrow> state \<Rightarrow> fault + state" where
  "crawl_roots fuel env i 0 roots s = Inr s"
| "crawl_roots fuel env i (Suc k) [] s = Inl OUT_OF_BOUNDS"
| "crawl_roots fuel env i (Suc k) (None # rest) s =
     crawl_roots fuel env (i + 1) k rest
       (logr ERROR ''[Crawler] Invalid directory at index %d'' [ArgD i] s)"
| "crawl_roots fuel env i (Suc k) (Some dir # rest) s =
     (case crawlDir fuel env
             (logr DEBUG ''[Crawler] Processing directory %d: %s'' [ArgD i, ArgS dir] s)
             (Some dir) of
        Inl e \<Rightarrow> Inl e
      | Inr s' \<Rightarrow> crawl_roots fuel env (i + 1) k rest s')"

text \<open>\<^verbatim>\<open>crawlDeps\<close> reads \<^verbatim>\<open>crawler->directory_count\<close> for its first message before it tests
  \<^verbatim>\<open>crawler\<close>.\<close>

definition crawlDeps :: "nat \<Rightarrow> 'g env \<Rightarrow> state \<Rightarrow> fault + state" where
  "crawlDeps fuel env s =
     (case crawler s of
        None \<Rightarrow> Inl NULL_DEREFERENCE
      | Some c \<Rightarrow>
          let s1 = logr INFO ''[Crawler] Starting dependency crawl for %d directories''
                     [ArgD (directory_count c)] s
          in
            (case root_directories c of
               None \<Rightarrow> Inr (logr ERROR ''[Crawler] Invalid crawler instance'' [] s1)
             | Some roots \<Rightarrow> crawl_roots fuel env 0 (nat (directory_count c)) roots s1))"

section \<open>Observations on states\<close>

text \<open>The dependency graph of a state (empty when there is no crawler).\<close>

definition graph_of :: "state \<Rightarrow> Dependency list" where
  "graph_of s = (case crawler s of None \<Rightarrow> [] | Some c \<Rightarrow> dependency_graph c)"

text \<open>The next checked allocation succeeds.\<close>

definition malloc_succeeds :: "state \<Rightarrow> bool" where
  "malloc_succeeds s = (case malloc_results s of [] \<Rightarrow> True | ok # _ \<Rightarrow> ok)"

text \<open>The node of a module record of a file: the path of the file and the target of the
  record.\<close>

definition module_node :: "string \<Rightarrow> ExtractedDependency \<Rightarrow> Dependency" where
  "module_node fp d =
     \<lparr>source = Some fp, dep_target = target d, dep_language = LANG_RUST, level = LAYER_MODULE,
      dep_methods = [], method_count = 0\<rparr>"

text \<open>A node of the method layer has a list of methods that is not empty, and its count is
  the length of the list.\<close>

definition method_node_ok :: "Dependency \<Rightarrow> bool" where
  "method_node_ok d =
     (level d \<noteq> LAYER_METHOD \<or>
      (dep_methods d \<noteq> [] \<and> method_count d = int (length (dep_methods d))))"

definition method_nodes_ok :: "Dependency list \<Rightarrow> bool" where
  "method_nodes_ok g = list_all method_node_ok g"

text \<open>What the invariant needs of the two functions of \<^verbatim>\<open>analyzers.h\<close>: for a record that is
  not of the method layer, the node that is created is well formed and \<^verbatim>\<open>graphDependency\<close>
  leaves a graph of well-formed nodes one.\<close>

definition keeps_method_nodes :: "'g env \<Rightarrow> bool" where
  "keeps_method_nodes env =
     (\<forall>e g. layer e \<noteq> LAYER_METHOD \<longrightarrow>
        method_nodes_ok (create_dependency_from_extracted env e) \<and>
        (method_nodes_ok g \<longrightarrow> method_nodes_ok (graphDependency env g e)))"

text \<open>The second state differs from the first by calls of \<^verbatim>\<open>logr\<close> only.\<close>

definition only_logged :: "state \<Rightarrow> state \<Rightarrow> bool" where
  "only_logged s s' = (s' = s\<lparr>trace := trace s'\<rparr> \<and> prefix (trace s) (trace s'))"

text \<open>A path that cannot be stat'ed, a directory that cannot be opened, a regular file
  that cannot be opened.\<close>

definition unreadable :: "'g env \<Rightarrow> string \<Rightarrow> bool" where
  "unreadable env p =
     (stat env p = None \<or>
      (stat env p = Some Directory \<and> opendir env p = None) \<or>
      (stat env p = Some Regular \<and> read_file env p = None))"


text \<open>The state with another value of \<^verbatim>\<open>max_depth\<close> in the configuration of its crawler, and,
  more generally, with a function applied to \<^verbatim>\<open>max_depth\<close> and entries put in front of its
  trace.\<close>

definition tweak :: "(int \<Rightarrow> int) \<Rightarrow> log_entry list \<Rightarrow> state \<Rightarrow> state" where
  "tweak f l s =
     s\<lparr>crawler :=
         map_option
           (\<lambda>c. c\<lparr>analysis_config :=
                     (analysis_config c)\<lparr>max_depth := f (max_depth (analysis_config c))\<rparr>\<rparr>)
           (crawler s),
       trace := l @ trace s\<rparr>"

definition set_max_depth :: "int \<Rightarrow> state \<Rightarrow> state" where
  "set_max_depth d s = tweak (\<lambda>_. d) [] s"

text \<open>The provenance stamp of one module record on a dependency text: the path of the
  record (nothing for a \<^verbatim>\<open>NULL\<close> path) and a colon in front of the text when the target of the
  record occurs in the text, the text itself otherwise.\<close>

definition module_path :: "ExtractedDependency \<Rightarrow> string" where
  "module_path m = (case file_path m of None \<Rightarrow> [] | Some f \<Rightarrow> f)"

definition stamp :: "ExtractedDependency \<Rightarrow> string \<Rightarrow> string" where
  "stamp m d =
     (case target m of
        None \<Rightarrow> d
      | Some t \<Rightarrow> if strstr d t = None then d else module_path m @ '':'' @ d)"

section \<open>Concrete inputs\<close>

text \<open>A record of a C file with an include, a structure with a base and a method with a
  callee, and the relationship graph that \<^verbatim>\<open>create_dependency_graph\<close> builds from it.\<close>

definition example_method :: Method where
  "example_method = Method (Some ''run'') None (Some ''void'') [] (Some ''helper'') (Some ''a.c'')
     [] [] False True True"

definition example_structure :: Structure where
  "example_structure = \<lparr>struct_name = Some ''Derived'', struct_methods = [],
     implemented_traits = [], dependencies = Some ''Base''\<rparr>"

definition example_record :: ExtractedDependency where
  "example_record = \<lparr>file_path = Some ''a.c'', target = None, module_name = Some ''stdio.h'',
     structures = [example_structure], methods = [example_method], language = LANG_C,
     layer = LAYER_MODULE\<rparr>"

definition inherits_relationship :: Relationship where
  "inherits_relationship = \<lparr>rel_from = ''Derived'', rel_to = ''Base'',
     relationship_type = ''inherits'', rel_layer = LAYER_STRUCT\<rparr>"

definition example_relationships :: DependencyGraph where
  "example_relationships = \<lparr>relationships =
       [\<lparr>rel_from = ''a.c'', rel_to = ''stdio.h'', relationship_type = ''imports'',
         rel_layer = LAYER_MODULE\<rparr>,
        inherits_relationship,
        \<lparr>rel_from = ''run'', rel_to = ''helper'', relationship_type = ''calls'',
         rel_layer = LAYER_METHOD\<rparr>],
       current_layer = LAYER_MODULE\<rparr>"

text \<open>The graph with the one relationship from \<open>A\<close> to \<open>B\<close> of kind \<open>imports\<close> in layer 0.\<close>

definition one_import :: DependencyGraph where
  "one_import = \<lparr>relationships =
       [\<lparr>rel_from = ''A'', rel_to = ''B'', relationship_type = ''imports'',
         rel_layer = LAYER_MODULE\<rparr>],
     current_layer = LAYER_MODULE\<rparr>"

text \<open>
  A small file system: the directory \<open>d\<close> holds the C file \<open>a.c\<close> and \<open>b.json\<close>; below \<open>deep\<close>
  the Python file \<open>m.py\<close> lies three directories down; the directory \<open>locked\<close> cannot be
  opened, the file \<open>d/secret.c\<close> cannot be read, and no other path exists. The module
  extractor finds the include of \<open>a.c\<close>, the method extractor the function of \<open>m.py\<close>.
\<close>

definition example_stat :: "string \<Rightarrow> file_kind option" where
  "example_stat p =
     (if p \<in> set [''d'', ''deep'', ''deep/l1'', ''deep/l1/l2'', ''locked''] then Some Directory
      else if p \<in> set [''d/a.c'', ''d/b.json'', ''d/secret.c'', ''deep/l1/l2/m.py'']
        then Some Regular
      else None)"

definition example_opendir :: "string \<Rightarrow> string list option" where
  "example_opendir p =
     (if p = ''d'' then Some [''.'', ''..'', ''a.c'', ''b.json'']
      else if p = ''deep'' then Some [''.'', ''..'', ''l1'']
      else if p = ''deep/l1'' then Some [''.'', ''..'', ''l2'']
      else if p = ''deep/l1/l2'' then Some [''.'', ''..'', ''m.py'']
      else None)"

definition example_read_file :: "string \<Rightarrow> string option" where
  "example_read_file p =
     (if p = ''d/a.c'' then Some ''#include <x.h>''
      else if p = ''d/b.json'' then Some ''{}''
      else if p = ''deep/l1/l2/m.py'' then Some ''def f(): pass''
      else None)"

definition include_record :: ExtractedDependency where
  "include_record = \<lparr>file_path = None, target = Some ''x.h'', module_name = None,
     structures = [], methods = [], language = LANG_C, layer = LAYER_MODULE\<rparr>"

definition function_f :: Method where
  "function_f = Method (Some ''f'') None None [] None (Some ''deep/l1/l2/m.py'') [] [] False True
     True"

text \<open>The assembler of the example world copies the path, the target, the language and the
  layer of a record into a node without methods, and \<^verbatim>\<open>graphDependency\<close> puts the node at
  the end of the list.\<close>

definition record_node :: "ExtractedDependency \<Rightarrow> Dependency" where
  "record_node e =
     \<lparr>source = file_path e, dep_target = target e, dep_language = language e, level = layer e,
      dep_methods = [], method_count = 0\<rparr>"

definition example_env :: "unit env" where
  "example_env =
     \<lparr>stat = example_stat, opendir = example_opendir, read_file = example_read_file,
      languageGrammars = (\<lambda>l. Some ()),
      analyzeModule = (\<lambda>content g. if content = ''#include <x.h>'' then [include_record] else []),
      analyze_structure = (\<lambda>content fp g. []),
      analyzeMethod = (\<lambda>fp content g. if content = ''def f(): pass'' then [function_f] else []),
      create_dependency_from_extracted = (\<lambda>e. [record_node e]),
      graphDependency = (\<lambda>g e. g @ [record_node e])\<rparr>"

text \<open>A memory with one node, the node of the include of \<open>a.c\<close>, at address 0.\<close>

definition one_node_memory :: graph_memory where
  "one_node_memory =
     \<lparr>allocated = (\<lambda>a. None)(0 \<mapsto> \<lparr>node_fields = record_node include_record, next = None\<rparr>),
      graph_head = Some 0\<rparr>"

text \<open>The state after \<^verbatim>\<open>create_crawler\<close> for the given roots and the depth \<open>d\<close>: all three
  layers are analysed, the graph is empty, nothing is logged and every allocation succeeds.\<close>

definition start_state :: "string list \<Rightarrow> int \<Rightarrow> state" where
  "start_state roots d =
     \<lparr>crawler = Some \<lparr>root_directories = Some (map Some roots),
                      directory_count = int (length roots),
                      analysis_config = \<lparr>analyzeModules = 1, analyze_structures = 1,
                                         analyzeMethods = 1, max_depth = d, follow_external = 0\<rparr>,
                      dependency_graph = []\<rparr>,
      trace = [], malloc_results = []\<rparr>"

text \<open>The state of a crawler with the given graph, all three layers analysed, nothing
  logged and every allocation succeeding.\<close>

definition graph_state :: "Dependency list \<Rightarrow> state" where
  "graph_state g =
     \<lparr>crawler = Some \<lparr>root_directories = Some [], directory_count = 0,
                      analysis_config = \<lparr>analyzeModules = 1, analyze_structures = 1,
                                         analyzeMethods = 1, max_depth = - 1,
                                         follow_external = 0\<rparr>,
                      dependency_graph = g\<rparr>,
      trace = [], malloc_results = []\<rparr>"

text \<open>A structure whose dependency text is \<open>Base\<close> and the module record of the file
  \<open>a.ext\<close> with the target \<open>Base\<close>.\<close>

definition base_structure :: Structure where
  "base_structure = \<lparr>struct_name = Some ''Derived'', struct_methods = [],
     implemented_traits = [], dependencies = Some ''Base''\<rparr>"

definition base_record :: ExtractedDependency where
  "base_record = \<lparr>file_path = Some ''a.ext'', target = Some ''Base'', module_name = None,
     structures = [], methods = [], language = LANG_RUST, layer = LAYER_MODULE\<rparr>"

text \<open>The example world with a module extractor that finds the given records in every
  text.\<close>

definition import_env :: "ExtractedDependency list \<Rightarrow> unit env" where
  "import_env records = example_env\<lparr>analyzeModule := (\<lambda>content g. records)\<rparr>"

section \<open>Properties of the language classifier\<close>

lemma strrchr_None_iff: "strrchr s c = None \<longleftrightarrow> c \<notin> set s"
  by (induction s) (auto split: option.splits)

lemma strrchr_last: "c \<notin> set e \<Longrightarrow> strrchr (b @ c # e) c = Some (c # e)"
  by (induction b) (auto simp: strrchr_None_iff[THEN iffD2] split: option.splits)

lemma strrchr_final_extension:
  "strrchr p CHR ''.'' = map_option (\<lambda>e. CHR ''.'' # e) (final_extension p)"
proof (cases "CHR ''.'' \<in> set p")
  case False
  then show ?thesis by (simp add: final_extension_def strrchr_None_iff)
next
  case True
  then obtain b e where p: "p = b @ CHR ''.'' # e" and e: "CHR ''.'' \<notin> set e"
    by (meson split_list_last)
  have "takeWhile (\<lambda>c. c \<noteq> CHR ''.'') (rev e @ CHR ''.'' # rev b) = rev e"
    using e by (auto simp: takeWhile_tail)
  then show ?thesis using e by (simp add: p final_extension_def strrchr_last)
qed

lemma take31_short: "length s < 31 \<Longrightarrow> (map f (take 31 e) = s) = (map f e = s)"
  by (cases "length e \<le> 31") auto

lemma match_extension_table:
  "match_extension (ext_lower e) = map_of extension_table (map tolower e)"
  by (simp add: match_extension_def ext_lower_def extension_table_def take31_short)

lemma languageType_refines: "languageType (Some p) = classify p"
  by (simp add: languageType_def classify_def strrchr_final_extension match_extension_table
      default_language_def split: option.splits)

lemma languageType_extension:
  "CHR ''.'' \<notin> set e \<Longrightarrow>
   languageType (Some (b @ CHR ''.'' # e)) =
     (case map_of extension_table (map tolower e) of None \<Rightarrow> LANG_RUST | Some l \<Rightarrow> l)"
  by (simp add: languageType_def strrchr_last match_extension_table split: option.splits)

lemma tolower_no_dot: "CHR ''.'' \<notin> set (map tolower e) \<Longrightarrow> CHR ''.'' \<notin> set e"
  by (induction e) (auto simp: tolower_def)

text \<open>
  Claim C3. \<^verbatim>\<open>languageType\<close> is a total function of the path alone, and of the text after its
  last dot compared without regard to case: it is the classifier of the specification; a
  recognised extension gives its language (\<^verbatim>\<open>rs\<close> Rust, \<^verbatim>\<open>c\<close>, \<^verbatim>\<open>h\<close>, \<^verbatim>\<open>cpp\<close>, \<^verbatim>\<open>hpp\<close> the C
  family, \<^verbatim>\<open>py\<close> Python); a \<^verbatim>\<open>NULL\<close> path, a path with no dot and an extension that is not
  in the table all give the default language \<^verbatim>\<open>LANG_RUST\<close>.
\<close>

theorem languageType_classifies:
  "languageType None = LANG_RUST \<and>
   languageType (Some p) = classify p \<and>
   (CHR ''.'' \<notin> set q \<longrightarrow> languageType (Some q) = LANG_RUST) \<and>
   (CHR ''.'' \<notin> set e \<longrightarrow>
      languageType (Some (b @ CHR ''.'' # e)) =
        (case map_of extension_table (map tolower e) of None \<Rightarrow> LANG_RUST | Some l \<Rightarrow> l)) \<and>
   (CHR ''.'' \<notin> set e1 \<and> CHR ''.'' \<notin> set e2 \<and> strcasecmp_eq e1 e2 \<longrightarrow>
      languageType (Some (b1 @ CHR ''.'' # e1)) = languageType (Some (b2 @ CHR ''.'' # e2))) \<and>
   (strcasecmp_eq e3 ''rs'' \<longrightarrow> languageType (Some (b3 @ CHR ''.'' # e3)) = LANG_RUST) \<and>
   (strcasecmp_eq e4 ''c'' \<or> strcasecmp_eq e4 ''h'' \<or> strcasecmp_eq e4 ''cpp'' \<or>
    strcasecmp_eq e4 ''hpp'' \<longrightarrow> languageType (Some (b4 @ CHR ''.'' # e4)) = LANG_C) \<and>
   (strcasecmp_eq e5 ''py'' \<longrightarrow> languageType (Some (b5 @ CHR ''.'' # e5)) = LANG_PYTHON) \<and>
   (CHR ''.'' \<notin> set e6 \<and> map tolower e6 \<notin> fst ` set extension_table \<longrightarrow>
      languageType (Some (b6 @ CHR ''.'' # e6)) = LANG_RUST)"
proof -
  have known: "languageType (Some (b' @ CHR ''.'' # e')) = l"
    if "strcasecmp_eq e' x" "map_of extension_table x = Some l" "map tolower x = x"
       "CHR ''.'' \<notin> set x" for x l b' e'
  proof -
    from that have m: "map tolower e' = x" by (simp add: strcasecmp_eq_def)
    with that have "CHR ''.'' \<notin> set e'" using tolower_no_dot by metis
    then show ?thesis using that m by (simp add: languageType_extension)
  qed
  have rs: "strcasecmp_eq e3 ''rs'' \<longrightarrow> languageType (Some (b3 @ CHR ''.'' # e3)) = LANG_RUST"
    using known[of e3 "''rs''" LANG_RUST] by (simp add: extension_table_def tolower_def)
  have c: "strcasecmp_eq e4 ''c'' \<longrightarrow> languageType (Some (b4 @ CHR ''.'' # e4)) = LANG_C"
    using known[of e4 "''c''" LANG_C] by (simp add: extension_table_def tolower_def)
  have h: "strcasecmp_eq e4 ''h'' \<longrightarrow> languageType (Some (b4 @ CHR ''.'' # e4)) = LANG_C"
    using known[of e4 "''h''" LANG_C] by (simp add: extension_table_def tolower_def)
  have cpp: "strcasecmp_eq e4 ''cpp'' \<longrightarrow> languageType (Some (b4 @ CHR ''.'' # e4)) = LANG_C"
    using known[of e4 "''cpp''" LANG_C] by (simp add: extension_table_def tolower_def)
  have hpp: "strcasecmp_eq e4 ''hpp'' \<longrightarrow> languageType (Some (b4 @ CHR ''.'' # e4)) = LANG_C"
    using known[of e4 "''hpp''" LANG_C] by (simp add: extension_table_def tolower_def)
  have py: "strcasecmp_eq e5 ''py'' \<longrightarrow> languageType (Some (b5 @ CHR ''.'' # e5)) = LANG_PYTHON"
    using known[of e5 "''py''" LANG_PYTHON] by (simp add: extension_table_def tolower_def)
  have nodot: "CHR ''.'' \<notin> set q \<longrightarrow> languageType (Some q) = LANG_RUST"
    by (simp add: languageType_def strrchr_None_iff[THEN iffD2])
  have unknown: "CHR ''.'' \<notin> set e6 \<and> map tolower e6 \<notin> fst ` set extension_table \<longrightarrow>
      languageType (Some (b6 @ CHR ''.'' # e6)) = LANG_RUST"
    by (auto simp: languageType_extension map_of_eq_None_iff[THEN iffD2] split: option.splits)
  have ci: "CHR ''.'' \<notin> set e1 \<and> CHR ''.'' \<notin> set e2 \<and> strcasecmp_eq e1 e2 \<longrightarrow>
      languageType (Some (b1 @ CHR ''.'' # e1)) = languageType (Some (b2 @ CHR ''.'' # e2))"
    by (simp add: languageType_extension strcasecmp_eq_def)
  have none: "languageType None = LANG_RUST"
    by (simp add: languageType_def)
  have ext: "CHR ''.'' \<notin> set e \<longrightarrow>
      languageType (Some (b @ CHR ''.'' # e)) =
        (case map_of extension_table (map tolower e) of None \<Rightarrow> LANG_RUST | Some l \<Rightarrow> l)"
    by (simp add: languageType_extension)
  from c h cpp hpp have cfam:
    "strcasecmp_eq e4 ''c'' \<or> strcasecmp_eq e4 ''h'' \<or> strcasecmp_eq e4 ''cpp'' \<or>
     strcasecmp_eq e4 ''hpp'' \<longrightarrow> languageType (Some (b4 @ CHR ''.'' # e4)) = LANG_C"
    by blast
  show ?thesis
    by (intro conjI none languageType_refines nodot ext ci rs cfam py unknown)
qed

text \<open>The classifier on concrete paths: upper-case and mixed-case extensions, a path with
  no extension and an extension that is not in the table.\<close>

theorem languageType_classifies_witness:
  "languageType None = LANG_RUST \<and>
   languageType (Some ''src/Tool.PY'') = classify ''src/Tool.PY'' \<and>
   CHR ''.'' \<notin> set ''Makefile'' \<and> languageType (Some ''Makefile'') = LANG_RUST \<and>
   CHR ''.'' \<notin> set ''Hpp'' \<and> CHR ''.'' \<notin> set ''hPP'' \<and> strcasecmp_eq ''Hpp'' ''hPP'' \<and>
   languageType (Some (''a'' @ CHR ''.'' # ''Hpp'')) =
     languageType (Some (''lib/b'' @ CHR ''.'' # ''hPP'')) \<and>
   strcasecmp_eq ''RS'' ''rs'' \<and> languageType (Some (''main'' @ CHR ''.'' # ''RS'')) = LANG_RUST \<and>
   strcasecmp_eq ''Cpp'' ''cpp'' \<and> languageType (Some (''x'' @ CHR ''.'' # ''Cpp'')) = LANG_C \<and>
   strcasecmp_eq ''PY'' ''py'' \<and>
   languageType (Some (''src/Tool'' @ CHR ''.'' # ''PY'')) = LANG_PYTHON \<and>
   CHR ''.'' \<notin> set ''gz'' \<and> map tolower ''gz'' \<notin> fst ` set extension_table \<and>
   languageType (Some (''x.tar'' @ CHR ''.'' # ''gz'')) = LANG_RUST"
proof -
  have hyps:
    "CHR ''.'' \<notin> set ''Makefile''"
    "CHR ''.'' \<notin> set ''Hpp''" "CHR ''.'' \<notin> set ''hPP''" "strcasecmp_eq ''Hpp'' ''hPP''"
    "strcasecmp_eq ''RS'' ''rs''" "strcasecmp_eq ''Cpp'' ''cpp''" "strcasecmp_eq ''PY'' ''py''"
    "CHR ''.'' \<notin> set ''gz''" "map tolower ''gz'' \<notin> fst ` set extension_table"
    by (simp_all add: strcasecmp_eq_def tolower_def extension_table_def)
  show ?thesis
    using hyps languageType_classifies [where p = "''src/Tool.PY''" and q = "''Makefile''"
      and e = "''gz''" and b = "''x''"
      and ?e1.0 = "''Hpp''" and ?e2.0 = "''hPP''" and ?b1.0 = "''a''" and ?b2.0 = "''lib/b''"
      and ?e3.0 = "''RS''" and ?b3.0 = "''main''" and ?e4.0 = "''Cpp''" and ?b4.0 = "''x''"
      and ?e5.0 = "''PY''" and ?b5.0 = "''src/Tool''" and ?e6.0 = "''gz''" and ?b6.0 = "''x.tar''"]
    by blast
qed

section \<open>Properties of the relationship graph\<close>

lemma add_relationship_set:
  "add_relationship cap rels r = Inr rels' \<Longrightarrow> rels' = rels @ [r]"
  by (auto simp: add_relationship_def split: if_splits)

lemma structure_relationships_origin:
  "structure_relationships cap sts rels = Inr rels' \<Longrightarrow> r \<in> set rels' \<Longrightarrow>
   r \<in> set rels \<or>
   ((\<exists>st \<in> set sts. struct_name st = Some (rel_from r) \<and> dependencies st = Some (rel_to r)) \<and>
    relationship_type r = ''inherits'' \<and> rel_layer r = LAYER_STRUCT)"
proof (induction sts arbitrary: rels)
  case Nil
  then show ?case by simp
next
  case (Cons st sts)
  show ?case
  proof (cases "dependencies st")
    case None
    with Cons show ?thesis by auto
  next
    case (Some d)
    with Cons.prems obtain n rels1 where n: "struct_name st = Some n"
      and a: "add_relationship cap rels
                \<lparr>rel_from = n, rel_to = d, relationship_type = ''inherits'',
                 rel_layer = LAYER_STRUCT\<rparr> = Inr rels1"
      and rec: "structure_relationships cap sts rels1 = Inr rels'"
      by (auto split: option.splits sum.splits)
    from Cons.IH[OF rec Cons.prems(2)] add_relationship_set[OF a] Some n
    show ?thesis by auto
  qed
qed

lemma method_relationships_origin:
  "method_relationships cap ms rels = Inr rels' \<Longrightarrow> r \<in> set rels' \<Longrightarrow>
   r \<in> set rels \<or>
   ((\<exists>m \<in> set ms. method_name m = Some (rel_from r) \<and> method_dependencies m = Some (rel_to r)) \<and>
    relationship_type r = ''calls'' \<and> rel_layer r = LAYER_METHOD)"
proof (induction ms arbitrary: rels)
  case Nil
  then show ?case by simp
next
  case (Cons m ms)
  show ?case
  proof (cases "method_dependencies m")
    case None
    with Cons show ?thesis by auto
  next
    case (Some d)
    with Cons.prems obtain n rels1 where n: "method_name m = Some n"
      and a: "add_relationship cap rels
                \<lparr>rel_from = n, rel_to = d, relationship_type = ''calls'',
                 rel_layer = LAYER_METHOD\<rparr> = Inr rels1"
      and rec: "method_relationships cap ms rels1 = Inr rels'"
      by (auto split: option.splits sum.splits)
    from Cons.IH[OF rec Cons.prems(2)] add_relationship_set[OF a] Some n
    show ?thesis by auto
  qed
qed

lemma module_relationship_origin:
  "module_relationship cap dep rels = Inr rels' \<Longrightarrow> r \<in> set rels' \<Longrightarrow>
   r \<in> set rels \<or>
   (module_origin dep r \<and> relationship_type r = ''imports'' \<and> rel_layer r = LAYER_MODULE)"
  by (auto simp: module_relationship_def module_origin_def add_relationship_def
      split: option.splits if_splits)

lemma dependency_relationships_origin:
  "dependency_relationships cap k ds rels = Inr rels' \<Longrightarrow> r \<in> set rels' \<Longrightarrow>
   r \<in> set rels \<or> (\<exists>dep. Some dep \<in> set (take k ds) \<and> layered_origin dep r)"
proof (induction cap k ds rels rule: dependency_relationships.induct)
  case (1 capacity deps rels)
  then show ?case by simp
next
  case (2 capacity k rels)
  then show ?case by simp
next
  case (3 capacity k deps rels)
  then show ?case by auto
next
  case (4 capacity k dep deps rels)
  from "4.prems"(1) obtain rels1 rels2 rels3 where
    m: "module_relationship capacity dep rels = Inr rels1" and
    s: "structure_relationships capacity (structures dep) rels1 = Inr rels2" and
    t: "method_relationships capacity (methods dep) rels2 = Inr rels3" and
    rec: "dependency_relationships capacity k deps rels3 = Inr rels'"
    by (auto split: sum.splits)
  from "4.IH"[OF m s t rec "4.prems"(2)]
  consider "r \<in> set rels3" | "\<exists>d. Some d \<in> set (take k deps) \<and> layered_origin d r"
    by blast
  then show ?case
  proof cases
    case 1
    from method_relationships_origin[OF t 1] structure_relationships_origin[OF s]
      module_relationship_origin[OF m]
    have "r \<in> set rels \<or> layered_origin dep r"
      unfolding layered_origin_def structure_origin_def method_origin_def by blast
    then show ?thesis by auto
  next
    case 2
    then show ?thesis by auto
  qed
qed

text \<open>
  \<^verbatim>\<open>create_dependency_graph\<close> reads \<^verbatim>\<open>dep->module_name\<close>, \<^verbatim>\<open>dep->file_path\<close>,
  \<^verbatim>\<open>dep->structures\<close> and \<^verbatim>\<open>dep->methods\<close>, and never \<^verbatim>\<open>dep->layer\<close>: writing other tags in
  the records changes nothing.
\<close>

lemma module_relationship_layer:
  "module_relationship cap (dep\<lparr>layer := l\<rparr>) rels = module_relationship cap dep rels"
  by (simp add: module_relationship_def split: option.splits)

lemma dependency_relationships_layer:
  "dependency_relationships cap k (map (map_option (\<lambda>d. d\<lparr>layer := tag d\<rparr>)) ds) rels =
   dependency_relationships cap k ds rels"
  by (induction cap k ds rels rule: dependency_relationships.induct)
    (simp_all add: module_relationship_layer split: sum.splits)

lemma create_dependency_graph_layer:
  "create_dependency_graph
     (map_option (map (map_option (\<lambda>d. d\<lparr>layer := tag d\<rparr>))) deps) dep_count =
   create_dependency_graph deps dep_count"
  by (cases deps) (simp_all add: create_dependency_graph_def dependency_relationships_layer)

lemma example_graph:
  "create_dependency_graph (Some [Some example_record]) 1 = Inr (Some example_relationships)"
  by (simp add: create_dependency_graph_def MAX_DEPENDENCIES_def module_relationship_def
      add_relationship_def example_record_def example_structure_def example_method_def
      example_relationships_def inherits_relationship_def)

text \<open>
  Claim C4, as stated, fails. The example record carries the tag \<^verbatim>\<open>LAYER_MODULE\<close>, a module
  name, one structure and one method. It is the only record of the list, and the graph built
  from it holds three relationships of the three kinds \<open>imports\<close>, \<open>inherits\<close> and \<open>calls\<close>, in
  the three layers. The second one comes from the structure of the record: its kind is
  \<open>inherits\<close>, not \<open>imports\<close>, and its layer is \<^verbatim>\<open>LAYER_STRUCT\<close>, not the layer of the record.
\<close>

theorem relationship_layer_tag_counterexample:
  "create_dependency_graph (Some [Some example_record]) 1 = Inr (Some example_relationships) \<and>
   layer example_record = LAYER_MODULE \<and>
   map relationship_type (relationships example_relationships) =
     [''imports'', ''inherits'', ''calls''] \<and>
   map rel_layer (relationships example_relationships) =
     [LAYER_MODULE, LAYER_STRUCT, LAYER_METHOD] \<and>
   inherits_relationship \<in> set (relationships example_relationships) \<and>
   example_structure \<in> set (structures example_record) \<and>
   struct_name example_structure = Some (rel_from inherits_relationship) \<and>
   dependencies example_structure = Some (rel_to inherits_relationship) \<and>
   relationship_type inherits_relationship = ''inherits'' \<and>
   relationship_type inherits_relationship \<noteq> ''imports'' \<and>
   rel_layer inherits_relationship = LAYER_STRUCT \<and>
   rel_layer inherits_relationship \<noteq> layer example_record"
proof -
  have "inherits_relationship \<in> set (relationships example_relationships)"
    and "map relationship_type (relationships example_relationships) =
         [''imports'', ''inherits'', ''calls'']"
    and "map rel_layer (relationships example_relationships) =
         [LAYER_MODULE, LAYER_STRUCT, LAYER_METHOD]"
    by (simp_all add: example_relationships_def inherits_relationship_def)
  moreover have "layer example_record = LAYER_MODULE"
    and "example_structure \<in> set (structures example_record)"
    by (simp_all add: example_record_def)
  moreover have "struct_name example_structure = Some (rel_from inherits_relationship)"
    and "dependencies example_structure = Some (rel_to inherits_relationship)"
    by (simp_all add: example_structure_def inherits_relationship_def)
  moreover have "relationship_type inherits_relationship = ''inherits''"
    and "rel_layer inherits_relationship = LAYER_STRUCT"
    by (simp_all add: inherits_relationship_def)
  ultimately show ?thesis
    using example_graph by simp
qed

text \<open>
  Claim C4, amended. Every relationship of the graph that \<^verbatim>\<open>create_dependency_graph\<close> returns
  comes from one of the records it was given (one of the first \<open>dep_count\<close> entries), and its
  kind and its layer are those of the part of the record it is built from: \<open>imports\<close> in the
  module layer for the module name of a record, \<open>inherits\<close> in the structure layer for a
  structure with a dependency text, \<open>calls\<close> in the method layer for a method with a dependency
  text. The \<^verbatim>\<open>layer\<close> field of the records has no part in it: with any other tags in the
  records the call returns the same graph.
\<close>

theorem relationship_kind_by_layer:
  assumes "create_dependency_graph deps dep_count = Inr (Some graph)"
    and "rel \<in> set (relationships graph)"
  shows "(\<exists>ds dep. deps = Some ds \<and> Some dep \<in> set (take (nat dep_count) ds) \<and>
            ((module_origin dep rel \<and> relationship_type rel = ''imports'' \<and>
              rel_layer rel = LAYER_MODULE) \<or>
             (structure_origin dep rel \<and> relationship_type rel = ''inherits'' \<and>
              rel_layer rel = LAYER_STRUCT) \<or>
             (method_origin dep rel \<and> relationship_type rel = ''calls'' \<and>
              rel_layer rel = LAYER_METHOD))) \<and>
         create_dependency_graph
           (map_option (map (map_option (\<lambda>d. d\<lparr>layer := tag d\<rparr>))) deps) dep_count =
         Inr (Some graph)"
proof -
  from assms(1) obtain ds rels where ds: "deps = Some ds"
    and run: "dependency_relationships (nat dep_count * MAX_DEPENDENCIES) (nat dep_count) ds [] =
              Inr rels"
    and g: "graph = \<lparr>relationships = rels, current_layer = LAYER_MODULE\<rparr>"
    by (auto simp: create_dependency_graph_def split: option.splits if_splits sum.splits)
  from assms(2) g have "rel \<in> set rels" by simp
  from dependency_relationships_origin[OF run this] ds
  have "\<exists>ds dep. deps = Some ds \<and> Some dep \<in> set (take (nat dep_count) ds) \<and>
           ((module_origin dep rel \<and> relationship_type rel = ''imports'' \<and>
             rel_layer rel = LAYER_MODULE) \<or>
            (structure_origin dep rel \<and> relationship_type rel = ''inherits'' \<and>
             rel_layer rel = LAYER_STRUCT) \<or>
            (method_origin dep rel \<and> relationship_type rel = ''calls'' \<and>
             rel_layer rel = LAYER_METHOD))"
    by (auto simp: layered_origin_def)
  with assms(1) show ?thesis
    by (simp only: create_dependency_graph_layer simp_thms)
qed

text \<open>The graph of the example record has its three relationships, the one of kind
  \<open>inherits\<close> comes from the structure of the record, and the same record tagged
  \<^verbatim>\<open>LAYER_METHOD\<close> gives the same graph.\<close>

theorem relationship_kind_by_layer_witness:
  "create_dependency_graph (Some [Some example_record]) 1 = Inr (Some example_relationships) \<and>
   inherits_relationship \<in> set (relationships example_relationships) \<and>
   (\<exists>ds dep. Some [Some example_record] = Some ds \<and> Some dep \<in> set (take (nat 1) ds) \<and>
      ((module_origin dep inherits_relationship \<and>
        relationship_type inherits_relationship = ''imports'' \<and>
        rel_layer inherits_relationship = LAYER_MODULE) \<or>
       (structure_origin dep inherits_relationship \<and>
        relationship_type inherits_relationship = ''inherits'' \<and>
        rel_layer inherits_relationship = LAYER_STRUCT) \<or>
       (method_origin dep inherits_relationship \<and>
        relationship_type inherits_relationship = ''calls'' \<and>
        rel_layer inherits_relationship = LAYER_METHOD))) \<and>
   create_dependency_graph (Some [Some (example_record\<lparr>layer := LAYER_METHOD\<rparr>)]) 1 =
   Inr (Some example_relationships)"
proof -
  have r: "inherits_relationship \<in> set (relationships example_relationships)"
    by (simp add: example_relationships_def)
  have m: "map_option (map (map_option (\<lambda>d. d\<lparr>layer := LAYER_METHOD\<rparr>)))
             (Some [Some example_record]) =
           Some [Some (example_record\<lparr>layer := LAYER_METHOD\<rparr>)]"
    by simp
  from relationship_kind_by_layer[OF example_graph r, where tag = "\<lambda>_. LAYER_METHOD",
      unfolded m] example_graph r
  show ?thesis
    by blast
qed

section \<open>Properties of the export\<close>

text \<open>
  Claim C5. When the output file can be opened, \<^verbatim>\<open>exportGraph\<close> with the format \<open>dot\<close> writes
  the header line, one line \<^verbatim>\<open>  "from" -> "to" [label="kind"];\<close> per relationship in the
  stored order, and the line of the closing brace.
\<close>

theorem exportGraph_dot:
  \<open>can_write path \<Longrightarrow>
   exportGraph can_write (Some graph) (Some ''dot'') (Some path) =
     Some (path,
       ''digraph Dependencies {'' @ [CHR 0x0A] @
       concat (map (\<lambda>rel. ''  "'' @ rel_from rel @ ''" -> "'' @ rel_to rel @ ''" [label="'' @
                            relationship_type rel @ ''"];'' @ [CHR 0x0A])
                 (relationships graph)) @
       ''}'' @ [CHR 0x0A])\<close>
  by (simp add: exportGraph_def dot_line_def[abs_def])

text \<open>The bytes written for the graph with the one relationship from \<open>A\<close> to \<open>B\<close>.\<close>

theorem exportGraph_dot_witness:
  \<open>(\<lambda>p. p = ''out.dot'') ''out.dot'' \<and>
   exportGraph (\<lambda>p. p = ''out.dot'') (Some one_import) (Some ''dot'') (Some ''out.dot'') =
   Some (''out.dot'',
     ''digraph Dependencies {'' @ [CHR 0x0A] @
     ''  "A" -> "B" [label="imports"];'' @ [CHR 0x0A] @
     ''}'' @ [CHR 0x0A])\<close>
  using exportGraph_dot [of "\<lambda>p. p = ''out.dot''" "''out.dot''" one_import]
  by (simp add: one_import_def)

section \<open>Properties of the graph assembler\<close>

lemma crawler_logr [simp]: "crawler (logr l f a s) = crawler s"
  by (simp add: logr_def)

lemma malloc_results_logr [simp]: "malloc_results (logr l f a s) = malloc_results s"
  by (simp add: logr_def)

lemma graph_of_logr [simp]: "graph_of (logr l f a s) = graph_of s"
  by (simp add: graph_of_def)

lemma crawler_malloc [simp]: "crawler (snd (malloc s)) = crawler s"
  by (simp add: malloc_def split: list.splits)

lemma graph_of_malloc [simp]: "graph_of (snd (malloc s)) = graph_of s"
  by (simp add: graph_of_def)

lemma fst_malloc: "fst (malloc s) = malloc_succeeds s"
  by (simp add: malloc_def malloc_succeeds_def split: list.splits)

lemma malloc_succeeds_logr [simp]: "malloc_succeeds (logr l f a s) = malloc_succeeds s"
  by (simp add: malloc_succeeds_def)

lemma malloc_empty: "malloc_results s = [] \<Longrightarrow> malloc s = (True, s)"
  by (simp add: malloc_def)

lemma crawler_add_to_graph [simp]:
  "(crawler (add_to_graph env e created added s) = None) = (crawler s = None)"
  by (auto simp: add_to_graph_def split: option.splits)

lemma malloc_results_add_to_graph [simp]:
  "malloc_results (add_to_graph env e created added s) = malloc_results s"
  by (auto simp: add_to_graph_def split: option.splits)

lemma graph_of_add_to_graph_empty:
  "crawler s \<noteq> None \<Longrightarrow> graph_of s = [] \<Longrightarrow>
   graph_of (add_to_graph env e created added s) = create_dependency_from_extracted env e"
  by (auto simp: add_to_graph_def graph_of_def)

lemma graph_of_add_to_graph_nonempty:
  "graph_of s \<noteq> [] \<Longrightarrow>
   graph_of (add_to_graph env e created added s) = graphDependency env (graph_of s) e"
  by (auto simp: add_to_graph_def graph_of_def split: option.splits)

lemma graph_of_graphMethods:
  "crawler s \<noteq> None \<Longrightarrow> ms \<noteq> [] \<Longrightarrow> malloc_succeeds s \<Longrightarrow>
   graph_of (graphMethods s (Some fp) ms) = method_node fp ms # graph_of s"
  by (auto simp: graphMethods_def graph_of_def Let_def fst_malloc method_node_def)

lemma linked_allocated: "linked h p xs \<Longrightarrow> x \<in> set xs \<Longrightarrow> h (fst x) \<noteq> None"
  by (induction xs arbitrary: p) (auto split: option.splits)

lemma linked_update:
  "a \<notin> fst ` set xs \<Longrightarrow> linked (h(a \<mapsto> n)) p xs = linked h p xs"
  by (induction xs arbitrary: p) (auto split: option.splits)

lemma linked_fresh:
  assumes "linked h p xs" and "h a = None"
  shows "linked (h(a \<mapsto> n)) p xs"
proof -
  from linked_allocated[OF assms(1)] assms(2) have "a \<notin> fst ` set xs" by force
  with assms(1) show ?thesis by (simp add: linked_update)
qed

lemma linked_graphMethods_at:
  assumes "linked (allocated m) (graph_head m) xs" and "allocated m a = None" and "ms \<noteq> []"
  shows "linked (allocated (graphMethods_at (Some a) (Some fp) ms m))
           (graph_head (graphMethods_at (Some a) (Some fp) ms m)) ((a, method_node fp ms) # xs)"
proof (cases "graph_head m")
  case None
  with assms linked_fresh[OF assms(1,2)] show ?thesis
    by (simp add: graphMethods_at_def)
next
  case (Some h)
  with assms linked_fresh[OF assms(1,2)] show ?thesis
    by (simp add: graphMethods_at_def)
qed

text \<open>
  Claim C1, amended. \<^verbatim>\<open>graphMethods\<close>, given methods and a node from \<^verbatim>\<open>malloc\<close>, makes the new
  node the head of the graph, with the previous head (\<^verbatim>\<open>NULL\<close> for the empty graph) as its
  \<^verbatim>\<open>next\<close>: the graph is the new node followed by the graph before. The merge of a module or
  structure record makes the node that \<^verbatim>\<open>create_dependency_from_extracted\<close> returns the root
  of an empty graph; for a graph that is not empty it leaves the head pointer as it is,
  whatever \<^verbatim>\<open>graphDependency\<close> does with the head it is handed.
\<close>

theorem merge_head:
  assumes "linked (allocated m) (graph_head m) xs" and "allocated m a = None" and "ms \<noteq> []"
  shows "graph_head (graphMethods_at (Some a) (Some fp) ms m) = Some a \<and>
         allocated (graphMethods_at (Some a) (Some fp) ms m) a =
           Some \<lparr>node_fields = method_node fp ms, next = graph_head m\<rparr> \<and>
         linked (allocated (graphMethods_at (Some a) (Some fp) ms m))
           (graph_head (graphMethods_at (Some a) (Some fp) ms m)) ((a, method_node fp ms) # xs) \<and>
         (crawler s \<noteq> None \<and> malloc_succeeds s \<longrightarrow>
            graph_of (graphMethods s (Some fp) ms) = method_node fp ms # graph_of s) \<and>
         (graph_head m = None \<longrightarrow>
            graph_head (add_to_graph_at create graph extracted m) =
              snd (create (allocated m) extracted)) \<and>
         (crawler s \<noteq> None \<and> graph_of s = [] \<longrightarrow>
            graph_of (add_to_graph env extracted created added s) =
              create_dependency_from_extracted env extracted) \<and>
         (graph_head m \<noteq> None \<longrightarrow>
            graph_head (add_to_graph_at create graph extracted m) = graph_head m \<and>
            graph_head (add_to_graph_at create graph extracted m) \<noteq> Some a)"
proof -
  have 1: "graph_head (graphMethods_at (Some a) (Some fp) ms m) = Some a"
    and 2: "allocated (graphMethods_at (Some a) (Some fp) ms m) a =
           Some \<lparr>node_fields = method_node fp ms, next = graph_head m\<rparr>"
    using assms(3) by (simp_all add: graphMethods_at_def split: option.splits)
  have 5: "graph_head (add_to_graph_at create graph extracted m) =
              snd (create (allocated m) extracted)" if "graph_head m = None"
    using that by (simp add: add_to_graph_at_def Let_def)
  have 7: "graph_head (add_to_graph_at create graph extracted m) = graph_head m \<and>
           graph_head (add_to_graph_at create graph extracted m) \<noteq> Some a"
    if "graph_head m \<noteq> None"
  proof -
    from that obtain h where h: "graph_head m = Some h" by auto
    with assms(1) obtain ys where "xs = (h, ys) # tl xs" by (cases xs) auto
    then have "(h, ys) \<in> set xs" by (metis list.set_intros(1))
    from linked_allocated[OF assms(1) this] assms(2) have "h \<noteq> a" by auto
    with h show ?thesis by (simp add: add_to_graph_at_def)
  qed
  have 4: "crawler s \<noteq> None \<and> malloc_succeeds s \<longrightarrow>
            graph_of (graphMethods s (Some fp) ms) = method_node fp ms # graph_of s"
    using assms(3) by (simp add: graph_of_graphMethods)
  have 6: "crawler s \<noteq> None \<and> graph_of s = [] \<longrightarrow>
            graph_of (add_to_graph env extracted created added s) =
              create_dependency_from_extracted env extracted"
    by (simp add: graph_of_add_to_graph_empty)
  from 1 2 linked_graphMethods_at[OF assms, of fp] 4 5 6 7 show ?thesis
    by blast
qed

lemma method_nodes_ok_add_to_graph:
  "keeps_method_nodes env \<Longrightarrow> layer e \<noteq> LAYER_METHOD \<Longrightarrow> method_nodes_ok (graph_of s) \<Longrightarrow>
   method_nodes_ok (graph_of (add_to_graph env e created added s))"
  by (cases "crawler s") (auto simp: add_to_graph_def graph_of_def keeps_method_nodes_def)

lemma graphMethods_noop:
  "crawler s = None \<or> fpath = None \<or> ms = [] \<Longrightarrow> graphMethods s fpath ms = s"
  by (auto simp: graphMethods_def split: option.splits)

lemma method_nodes_ok_graphMethods:
  "method_nodes_ok (graph_of s) \<Longrightarrow> method_nodes_ok (graph_of (graphMethods s fpath ms))"
  by (auto simp: graphMethods_def graph_of_def Let_def method_nodes_ok_def method_node_ok_def
      countMethods_def split: option.splits)

lemma graph_of_resolve_dependency [simp]:
  "graph_of (fst (resolve_dependency d p)) = graph_of (fst p)"
  by (simp add: resolve_dependency_def Let_def split: option.splits)

lemma graph_of_fold_resolve [simp]:
  "graph_of (fst (fold resolve_dependency ds p)) = graph_of (fst p)"
  by (induction ds arbitrary: p) simp_all

lemma graph_of_resolve_structure [simp]:
  "graph_of (fst (resolve_structure env ct gr st s)) = graph_of s"
  by (simp add: resolve_structure_def)

lemma graph_of_resolve_structures [simp]:
  "graph_of (fst (resolve_structures env ct gr sts s)) = graph_of s"
  by (induction sts arbitrary: s) (simp_all add: Let_def)

lemma method_nodes_ok_graph_modules:
  "keeps_method_nodes env \<Longrightarrow> method_nodes_ok (graph_of s) \<Longrightarrow>
   method_nodes_ok (graph_of (case_sum id id (graph_modules env fp ds s)))"
proof (induction ds arbitrary: s)
  case Nil
  then show ?case by simp
next
  case (Cons d ds)
  show ?case
    using Cons.prems
    by (auto simp: Let_def intro!: Cons.IH method_nodes_ok_add_to_graph)
qed

lemma method_nodes_ok_process_modules:
  "keeps_method_nodes env \<Longrightarrow> method_nodes_ok (graph_of s) \<Longrightarrow>
   method_nodes_ok (graph_of (case_sum id id (process_modules env cfg fp ct gr s)))"
  by (simp add: process_modules_def method_nodes_ok_graph_modules)

lemma method_nodes_ok_process_structures:
  "keeps_method_nodes env \<Longrightarrow> method_nodes_ok (graph_of s) \<Longrightarrow>
   method_nodes_ok (graph_of (case_sum id id (process_structures env cfg fp ct gr s)))"
  by (auto simp: process_structures_def Let_def intro!: method_nodes_ok_add_to_graph)

lemma method_nodes_ok_process_methods:
  "method_nodes_ok (graph_of s) \<Longrightarrow>
   method_nodes_ok (graph_of (process_methods env cfg fp ct gr s))"
  by (auto simp: process_methods_def Let_def intro!: method_nodes_ok_graphMethods)

lemma method_nodes_ok_processLayer:
  assumes "keeps_method_nodes env" and "method_nodes_ok (graph_of s)"
  shows "method_nodes_ok (graph_of (processLayer env s filepath content grammar))"
proof (cases "\<exists>c fp ct gr. crawler s = Some c \<and> filepath = Some fp \<and> content = Some ct \<and>
                grammar = Some gr")
  case False
  then have "processLayer env s filepath content grammar =
               logr ERROR ''[Crawler] Invalid parameters passed to processLayer'' [] s"
    by (auto simp: processLayer_def split: option.splits)
  with assms show ?thesis by simp
next
  case True
  then obtain c fp ct gr where v: "crawler s = Some c" "filepath = Some fp" "content = Some ct"
    "grammar = Some gr" by blast
  let ?cfg = "analysis_config c"
  let ?s0 = "logr VERBOSE ''[Crawler] Processing layer for file: %s'' [ArgS fp] s"
  have i0: "method_nodes_ok (graph_of ?s0)" using assms by simp
  note i1 = method_nodes_ok_process_modules[OF assms(1) i0, of ?cfg fp ct gr]
  show ?thesis
  proof (cases "process_modules env ?cfg fp ct gr ?s0")
    case (Inl r)
    with i1 v show ?thesis by (simp add: processLayer_def)
  next
    case (Inr s1)
    with i1 have i1': "method_nodes_ok (graph_of s1)" by simp
    note i2 = method_nodes_ok_process_structures[OF assms(1) i1', of ?cfg fp ct gr]
    show ?thesis
    proof (cases "process_structures env ?cfg fp ct gr s1")
      case (Inl r)
      with i2 v \<open>process_modules env ?cfg fp ct gr ?s0 = Inr s1\<close> show ?thesis
        by (simp add: processLayer_def)
    next
      case (Inr s2)
      with i2 have "method_nodes_ok (graph_of s2)" by simp
      from method_nodes_ok_process_methods[OF this, of env ?cfg fp ct gr]
        v \<open>process_modules env ?cfg fp ct gr ?s0 = Inr s1\<close> Inr
      show ?thesis by (simp add: processLayer_def)
    qed
  qed
qed

lemma method_nodes_ok_processFile:
  assumes "keeps_method_nodes env" and "method_nodes_ok (graph_of s)"
  shows "method_nodes_ok (graph_of (processFile env s fpath))"
proof -
  have t: "graph_of (x\<lparr>trace := l\<rparr>) = graph_of x" for x l by (simp add: graph_of_def)
  show ?thesis
    using assms
    by (auto simp: processFile_def Let_def t split: option.splits
        intro!: method_nodes_ok_processLayer)
qed

lemma method_nodes_ok_crawl:
  shows "crawlDir fuel (env :: 'g env) s path = Inr s' \<Longrightarrow> keeps_method_nodes env \<Longrightarrow>
         method_nodes_ok (graph_of s) \<Longrightarrow> method_nodes_ok (graph_of s')"
    and "crawl_entries fuel2 (env2 :: 'g env) s2 dir entries = Inr s2' \<Longrightarrow>
         keeps_method_nodes env2 \<Longrightarrow> method_nodes_ok (graph_of s2) \<Longrightarrow>
         method_nodes_ok (graph_of s2')"
proof (induction fuel env s path and fuel2 env2 s2 dir entries arbitrary: s' and s2'
       rule: crawlDir_crawl_entries.induct)
  case (1 env s path)
  then show ?case by simp
next
  case (2 fuel env s path)
  then show ?case
    by (auto simp: Let_def method_nodes_ok_processFile
        split: option.splits file_kind.splits if_splits)
next
  case (3 fuel env s path)
  then show ?case by simp
next
  case (4 fuel env s path d_name rest)
  then show ?case
    by (auto simp: Let_def split: if_splits sum.splits)
qed

lemma method_nodes_ok_crawl_roots:
  "crawl_roots fuel env i k roots s = Inr s' \<Longrightarrow> keeps_method_nodes env \<Longrightarrow>
   method_nodes_ok (graph_of s) \<Longrightarrow> method_nodes_ok (graph_of s')"
proof (induction fuel env i k roots s rule: crawl_roots.induct)
  case (4 fuel env i k dir rest s)
  from "4.prems"(1) obtain s1 where
    c: "crawlDir fuel env
          (logr DEBUG ''[Crawler] Processing directory %d: %s'' [ArgD i, ArgS dir] s)
          (Some dir) = Inr s1"
    and r: "crawl_roots fuel env (i + 1) k rest s1 = Inr s'"
    by (auto split: sum.splits)
  from method_nodes_ok_crawl(1)[OF c "4.prems"(2)] "4.prems"(3)
  have "method_nodes_ok (graph_of s1)" by simp
  from "4.IH"[OF c r "4.prems"(2) this] show ?case .
qed auto

lemma method_nodes_ok_crawlDeps:
  "crawlDeps fuel env s = Inr s' \<Longrightarrow> keeps_method_nodes env \<Longrightarrow>
   method_nodes_ok (graph_of s) \<Longrightarrow> method_nodes_ok (graph_of s')"
  by (auto simp: crawlDeps_def Let_def split: option.splits
      dest!: method_nodes_ok_crawl_roots)

text \<open>
  Claim C10. \<^verbatim>\<open>graphMethods\<close> with a \<^verbatim>\<open>NULL\<close> crawler, a \<^verbatim>\<open>NULL\<close> path or an empty list of
  methods returns the state it was given; otherwise the node it adds is of the method
  layer, holds the list it was given and the count of that list, and the nodes before it
  stay as they are. So \<^verbatim>\<open>graphMethods\<close> keeps the property that every node of the method
  layer has a list of methods that is not empty and a count equal to its length, and so do
  \<^verbatim>\<open>processLayer\<close> and a whole crawl from the empty graph, as long as the two functions of
  \<^verbatim>\<open>analyzers.h\<close> that build the nodes of module and structure records keep it.
\<close>

theorem method_nodes_well_formed:
  "(crawler s = None \<or> fpath = None \<or> ms = [] \<longrightarrow> graphMethods s fpath ms = s) \<and>
   (crawler s \<noteq> None \<and> ms \<noteq> [] \<and> malloc_succeeds s \<longrightarrow>
      graph_of (graphMethods s (Some fp) ms) =
        \<lparr>source = Some fp, dep_target = None, dep_language = LANG_RUST, level = LAYER_METHOD,
         dep_methods = ms, method_count = int (length ms)\<rparr> # graph_of s) \<and>
   (method_nodes_ok (graph_of s) \<longrightarrow> method_nodes_ok (graph_of (graphMethods s fpath ms))) \<and>
   (keeps_method_nodes env \<and> method_nodes_ok (graph_of s) \<longrightarrow>
      method_nodes_ok (graph_of (processLayer env s filepath content grammar))) \<and>
   (keeps_method_nodes env \<and> graph_of s = [] \<and> crawlDeps fuel env s = Inr s' \<longrightarrow>
      (\<forall>d \<in> set (graph_of s').
         level d = LAYER_METHOD \<longrightarrow>
           dep_methods d \<noteq> [] \<and> method_count d = int (length (dep_methods d))))"
proof -
  have "\<forall>d \<in> set (graph_of s').
          level d = LAYER_METHOD \<longrightarrow>
            dep_methods d \<noteq> [] \<and> method_count d = int (length (dep_methods d))"
    if "keeps_method_nodes env" "graph_of s = []" "crawlDeps fuel env s = Inr s'"
  proof -
    from that have "method_nodes_ok (graph_of s')"
      by (intro method_nodes_ok_crawlDeps[OF that(3,1)]) (simp add: method_nodes_ok_def)
    then show ?thesis
      by (auto simp: method_nodes_ok_def method_node_ok_def list_all_iff)
  qed
  moreover have "graph_of (graphMethods s (Some fp) ms) =
        \<lparr>source = Some fp, dep_target = None, dep_language = LANG_RUST, level = LAYER_METHOD,
         dep_methods = ms, method_count = int (length ms)\<rparr> # graph_of s"
    if "crawler s \<noteq> None" "ms \<noteq> []" "malloc_succeeds s"
    using graph_of_graphMethods[OF that] by (simp add: method_node_def countMethods_def)
  ultimately show ?thesis
    using graphMethods_noop[of s fpath ms] method_nodes_ok_graphMethods[of s fpath ms]
      method_nodes_ok_processLayer[of env s filepath content grammar]
    by blast
qed

section \<open>The crawler does not read the depth or the trace\<close>

lemma tweak_logr: "logr lv fm a (tweak f l s) = tweak f l (logr lv fm a s)"
  by (simp add: logr_def tweak_def)

lemma crawler_tweak [simp]:
  "crawler (tweak f l s) =
     map_option
       (\<lambda>c. c\<lparr>analysis_config :=
                 (analysis_config c)\<lparr>max_depth := f (max_depth (analysis_config c))\<rparr>\<rparr>)
       (crawler s)"
  by (simp add: tweak_def)

lemma malloc_results_tweak [simp]: "malloc_results (tweak f l s) = malloc_results s"
  by (simp add: tweak_def)

lemma tweak_malloc:
  "fst (malloc (tweak f l s)) = fst (malloc s)"
  "snd (malloc (tweak f l s)) = tweak f l (snd (malloc s))"
  by (simp_all add: malloc_def tweak_def split: list.splits)

lemma tweak_add_to_graph:
  "add_to_graph env e cr ad (tweak f l s) = tweak f l (add_to_graph env e cr ad s)"
  by (cases "crawler s") (auto simp: add_to_graph_def tweak_def logr_def)

lemma tweak_graphMethods:
  "graphMethods (tweak f l s) fpath ms = tweak f l (graphMethods s fpath ms)"
proof (cases "crawler s = None \<or> fpath = None \<or> ms = []")
  case True
  then show ?thesis by (cases "crawler s"; cases fpath) (auto simp: graphMethods_def)
next
  case False
  then obtain c fp where c: "crawler s = Some c" "fpath = Some fp" "ms \<noteq> []" by auto
  then show ?thesis
    by (simp add: graphMethods_def Let_def tweak_logr tweak_malloc)
       (simp add: tweak_def logr_def malloc_def split: list.splits)
qed

lemma tweak_resolve_dependency:
  "resolve_dependency d (tweak f l s, st) =
     (tweak f l (fst (resolve_dependency d (s, st))), snd (resolve_dependency d (s, st)))"
  by (simp add: resolve_dependency_def Let_def tweak_logr tweak_malloc split: option.splits)

lemma tweak_fold_resolve:
  "fold resolve_dependency ds (tweak f l s, st) =
     (tweak f l (fst (fold resolve_dependency ds (s, st))),
      snd (fold resolve_dependency ds (s, st)))"
proof (induction ds arbitrary: s st)
  case Nil
  then show ?case by simp
next
  case (Cons d ds)
  have "fold resolve_dependency (d # ds) (tweak f l s, st) =
        fold resolve_dependency ds
          (tweak f l (fst (resolve_dependency d (s, st))), snd (resolve_dependency d (s, st)))"
    by (simp add: tweak_resolve_dependency)
  also have "\<dots> = (tweak f l (fst (fold resolve_dependency (d # ds) (s, st))),
                   snd (fold resolve_dependency (d # ds) (s, st)))"
    by (simp add: Cons.IH)
  finally show ?case .
qed

lemma tweak_resolve_structure:
  "resolve_structure env ct gr st (tweak f l s) =
     (tweak f l (fst (resolve_structure env ct gr st s)), snd (resolve_structure env ct gr st s))"
  by (simp add: resolve_structure_def tweak_logr tweak_fold_resolve)

lemma tweak_resolve_structures:
  "resolve_structures env ct gr sts (tweak f l s) =
     (tweak f l (fst (resolve_structures env ct gr sts s)),
      snd (resolve_structures env ct gr sts s))"
  by (induction sts arbitrary: s) (simp_all add: Let_def tweak_resolve_structure)

lemma tweak_graph_modules:
  "graph_modules env fp ds (tweak f l s) =
     map_sum (tweak f l) (tweak f l) (graph_modules env fp ds s)"
  by (induction ds arbitrary: s)
     (simp_all add: Let_def tweak_logr tweak_malloc tweak_add_to_graph)

lemma tweak_process_modules:
  "process_modules env (cfg\<lparr>max_depth := x\<rparr>) fp ct gr (tweak f l s) =
     map_sum (tweak f l) (tweak f l) (process_modules env cfg fp ct gr s)"
  by (simp add: process_modules_def tweak_logr tweak_graph_modules)

lemma tweak_process_structures:
  "process_structures env (cfg\<lparr>max_depth := x\<rparr>) fp ct gr (tweak f l s) =
     map_sum (tweak f l) (tweak f l) (process_structures env cfg fp ct gr s)"
  by (simp add: process_structures_def Let_def tweak_logr tweak_malloc tweak_resolve_structures
      tweak_add_to_graph)

lemma tweak_process_methods:
  "process_methods env (cfg\<lparr>max_depth := x\<rparr>) fp ct gr (tweak f l s) =
     tweak f l (process_methods env cfg fp ct gr s)"
  by (simp add: process_methods_def Let_def tweak_logr tweak_graphMethods)

lemma tweak_processLayer:
  "processLayer env (tweak f l s) filepath content grammar =
     tweak f l (processLayer env s filepath content grammar)"
proof (cases "\<exists>c fp ct gr. crawler s = Some c \<and> filepath = Some fp \<and> content = Some ct \<and>
                grammar = Some gr")
  case False
  then have "processLayer env s' filepath content grammar =
               logr ERROR ''[Crawler] Invalid parameters passed to processLayer'' [] s'"
    if "(crawler s' = None) = (crawler s = None)" for s'
    using that by (cases "crawler s'") (auto simp: processLayer_def split: option.splits)
  from this[of s] this[of "tweak f l s"] show ?thesis by (simp add: tweak_logr)
next
  case True
  then obtain c fp ct gr where v: "crawler s = Some c" "filepath = Some fp" "content = Some ct"
    "grammar = Some gr" by blast
  show ?thesis
    unfolding processLayer_def
    by (simp add: v Let_def tweak_logr tweak_process_modules tweak_process_structures
        tweak_process_methods split: sum.splits)
qed

lemma tweak_processFile:
  "processFile env (tweak f l s) fpath = tweak f l (processFile env s fpath)"
proof (cases "crawler s")
  case None
  then show ?thesis by (simp add: processFile_def tweak_def)
next
  case (Some c)
  have t: "(tweak f l x)\<lparr>trace := trace (tweak f l x) @ y\<rparr> = tweak f l (x\<lparr>trace := trace x @ y\<rparr>)"
    for x y by (simp add: tweak_def)
  show ?thesis
    by (simp add: processFile_def Some Let_def tweak_logr tweak_malloc t tweak_processLayer
        split: option.splits)
qed

lemma tweak_crawl:
  shows "crawlDir fuel (env :: 'g env) (tweak f l s) path =
           map_sum id (tweak f l) (crawlDir fuel env s path)"
    and "crawl_entries fuel2 (env2 :: 'g env) (tweak f l s2) dir entries =
           map_sum id (tweak f l) (crawl_entries fuel2 env2 s2 dir entries)"
proof (induction fuel env s path and fuel2 env2 s2 dir entries
       rule: crawlDir_crawl_entries.induct)
  case (1 env s path)
  then show ?case by simp
next
  case (2 fuel env s path)
  show ?case
  proof (cases "crawler s")
    case None
    then show ?thesis by (simp add: tweak_logr)
  next
    case (Some c)
    show ?thesis
      using "2.IH" Some
      by (auto simp: Let_def tweak_logr tweak_processFile
          split: option.splits file_kind.splits)
  qed
next
  case (3 fuel env s path)
  then show ?case by simp
next
  case (4 fuel env s path d_name rest)
  show ?case
  proof (cases "hidden_entry d_name")
    case True
    with "4.IH"(1) show ?thesis by simp
  next
    case False
    let ?fp = "snprintf 1024 (path @ ''/'' @ d_name)"
    let ?s1 = "logr DEBUG ''[Crawler] Found entry: %s'' [ArgS ?fp] s"
    note ih2 = "4.IH"(2)[OF False refl refl]
    show ?thesis
    proof (cases "crawlDir fuel env ?s1 (Some ?fp)")
      case (Inl e)
      with ih2 False show ?thesis by (simp add: Let_def tweak_logr)
    next
      case (Inr b)
      note ih3 = "4.IH"(3)[OF False refl refl Inr]
      from ih2 Inr ih3 False show ?thesis by (simp add: Let_def tweak_logr)
    qed
  qed
qed

lemma tweak_crawl_roots:
  "crawl_roots fuel env i k roots (tweak f l s) =
     map_sum id (tweak f l) (crawl_roots fuel env i k roots s)"
proof (induction fuel env i k roots s rule: crawl_roots.induct)
  case (4 fuel env i k dir rest s)
  show ?case
  proof (cases "crawlDir fuel env
                  (logr DEBUG ''[Crawler] Processing directory %d: %s'' [ArgD i, ArgS dir] s)
                  (Some dir)")
    case (Inl e)
    then show ?thesis by (simp add: tweak_logr tweak_crawl)
  next
    case (Inr b)
    with "4.IH"[OF Inr] show ?thesis by (simp add: tweak_logr tweak_crawl)
  qed
qed (simp_all add: tweak_logr)

lemma tweak_crawlDeps:
  "crawlDeps fuel env (tweak f l s) = map_sum id (tweak f l) (crawlDeps fuel env s)"
proof (cases "crawler s")
  case None
  then show ?thesis by (simp add: crawlDeps_def tweak_def)
next
  case (Some c)
  then show ?thesis
    by (simp add: crawlDeps_def Let_def tweak_logr tweak_crawl_roots split: option.splits)
qed

section \<open>Unreadable paths and paths without extension\<close>

lemma only_logged_iff: "only_logged s s' \<longleftrightarrow> (\<exists>l. s' = s\<lparr>trace := trace s @ l\<rparr>)"
proof
  assume "only_logged s s'"
  then obtain l where "trace s' = trace s @ l" and "s' = s\<lparr>trace := trace s'\<rparr>"
    by (auto simp: only_logged_def prefix_def)
  then show "\<exists>l. s' = s\<lparr>trace := trace s @ l\<rparr>" by metis
next
  assume "\<exists>l. s' = s\<lparr>trace := trace s @ l\<rparr>"
  then show "only_logged s s'" by (auto simp: only_logged_def)
qed

lemma logr_append0: "logr lv fm a s = s\<lparr>trace := trace s @ [(lv, fm, a)]\<rparr>"
  by (simp add: logr_def)

lemma ex_log:
  "l \<noteq> [] \<Longrightarrow> \<exists>l'. l' \<noteq> [] \<and> s\<lparr>trace := trace s @ l\<rparr> = s\<lparr>trace := trace s @ l'\<rparr>"
  by blast

lemma unreadable_file_logged:
  assumes "crawler s \<noteq> None" "read_file env p = None"
  shows "\<exists>l. l \<noteq> [] \<and> processFile env s (Some p) = s\<lparr>trace := trace s @ l\<rparr>"
  using assms
  by (auto simp: processFile_def Let_def logr_append0 split: option.splits intro!: ex_log)

lemma unreadable_crawlDir:
  assumes "crawler s \<noteq> None" "unreadable env p"
  shows "\<exists>l. l \<noteq> [] \<and> crawlDir (Suc fuel) env s (Some p) = Inr (s\<lparr>trace := trace s @ l\<rparr>)"
proof -
  from assms(1) obtain c where c: "crawler s = Some c" by auto
  from assms(2) consider "stat env p = None"
    | "stat env p = Some Directory" "opendir env p = None"
    | "stat env p = Some Regular" "read_file env p = None"
    by (auto simp: unreadable_def)
  then show ?thesis
  proof cases
    case 1
    with c show ?thesis by (auto simp: logr_append0 intro!: ex_log)
  next
    case 2
    with c show ?thesis by (auto simp: logr_append0 Let_def intro!: ex_log)
  next
    case 3
    let ?s0 = "logr DEBUG ''[Crawler] Processing file: %s'' [ArgS p] s"
    have "crawler ?s0 \<noteq> None" using c by simp
    from unreadable_file_logged[OF this 3(2)] obtain l where
      "processFile env ?s0 (Some p) = ?s0\<lparr>trace := trace ?s0 @ l\<rparr>" by blast
    then have "processFile env ?s0 (Some p) =
               s\<lparr>trace := trace s @ (DEBUG, ''[Crawler] Processing file: %s'', [ArgS p]) # l\<rparr>"
      by (simp add: logr_def)
    with c 3 show ?thesis by auto
  qed
qed

text \<open>
  Claim C6. A path that cannot be stat'ed, a directory that cannot be opened and a regular
  file that cannot be opened make \<^verbatim>\<open>crawlDir\<close> return with calls of \<^verbatim>\<open>logr\<close> as its only
  effect: at least one entry is logged (the error message of the failing call for the three
  failures), the graph is the graph before, and the loop over the roots and the loop over
  the entries of a directory go on with the root or entry that follows.
\<close>

theorem unreadable_path_skipped:
  assumes "crawler s \<noteq> None" and "unreadable env p"
  shows "(\<exists>s1. crawlDir (Suc fuel) env s (Some p) = Inr s1 \<and> only_logged s s1 \<and>
               trace s1 \<noteq> trace s \<and> graph_of s1 = graph_of s) \<and>
         (\<exists>s1. only_logged s s1 \<and> graph_of s1 = graph_of s \<and>
               crawl_roots (Suc fuel) env i (Suc k) (Some p # roots) s =
               crawl_roots (Suc fuel) env (i + 1) k roots s1) \<and>
         (\<not> hidden_entry e \<and> p = snprintf 1024 (dir @ ''/'' @ e) \<longrightarrow>
            (\<exists>s1. only_logged s s1 \<and> graph_of s1 = graph_of s \<and>
                  crawl_entries (Suc fuel) env s dir (e # es) =
                  crawl_entries (Suc fuel) env s1 dir es)) \<and>
         (stat env p = None \<longrightarrow>
            crawlDir (Suc fuel) env s (Some p) =
              Inr (logr ERROR ''[Crawler] Failed to stat path: %s'' [ArgS p] s)) \<and>
         (stat env p = Some Directory \<and> opendir env p = None \<longrightarrow>
            crawlDir (Suc fuel) env s (Some p) =
              Inr (logr ERROR ''[Crawler] Failed to open directory: %s'' [ArgS p]
                     (logr INFO ''[Crawler] Opening directory: %s'' [ArgS p] s))) \<and>
         (stat env p = Some Regular \<and> read_file env p = None \<and>
          strrchr p CHR ''.'' = Some x \<and> \<not> skip_extension (tl x) \<longrightarrow>
            crawlDir (Suc fuel) env s (Some p) =
              Inr (logr ERROR ''[Crawler] Failed to open file: %s'' [ArgS p]
                     (logr INFO ''[Crawler] Attempting to process file: %s (extension: %s)''
                        [ArgS p, ArgS (tl x)]
                        (logr DEBUG ''[Crawler] Processing file: %s'' [ArgS p] s))))"
proof -
  from assms(1) obtain c where c: "crawler s = Some c" by auto
  have A: "\<exists>s1. crawlDir (Suc fuel) env s (Some p) = Inr s1 \<and> only_logged s s1 \<and>
               trace s1 \<noteq> trace s \<and> graph_of s1 = graph_of s"
  proof -
    from unreadable_crawlDir[OF assms] obtain l where l: "l \<noteq> []"
      "crawlDir (Suc fuel) env s (Some p) = Inr (s\<lparr>trace := trace s @ l\<rparr>)" by blast
    have "only_logged s (s\<lparr>trace := trace s @ l\<rparr>)" by (auto simp: only_logged_iff)
    with l show ?thesis by (auto simp: graph_of_def)
  qed
  have B: "\<exists>s1. only_logged s s1 \<and> graph_of s1 = graph_of s \<and>
               crawl_roots (Suc fuel) env i (Suc k) (Some p # roots) s =
               crawl_roots (Suc fuel) env (i + 1) k roots s1"
  proof -
    let ?s0 = "logr DEBUG ''[Crawler] Processing directory %d: %s'' [ArgD i, ArgS p] s"
    have "crawler ?s0 \<noteq> None" using c by simp
    from unreadable_crawlDir[OF this assms(2)] obtain l where
      l: "crawlDir (Suc fuel) env ?s0 (Some p) = Inr (?s0\<lparr>trace := trace ?s0 @ l\<rparr>)" by blast
    have "only_logged s (?s0\<lparr>trace := trace ?s0 @ l\<rparr>)"
      by (auto simp: only_logged_iff logr_def)
    moreover have "graph_of (?s0\<lparr>trace := trace ?s0 @ l\<rparr>) = graph_of s"
      by (simp add: graph_of_def)
    moreover have "crawl_roots (Suc fuel) env i (Suc k) (Some p # roots) s =
               crawl_roots (Suc fuel) env (i + 1) k roots (?s0\<lparr>trace := trace ?s0 @ l\<rparr>)"
      using l by simp
    ultimately show ?thesis by blast
  qed
  have C: "\<exists>s1. only_logged s s1 \<and> graph_of s1 = graph_of s \<and>
                  crawl_entries (Suc fuel) env s dir (e # es) =
                  crawl_entries (Suc fuel) env s1 dir es"
    if h: "\<not> hidden_entry e" and pe: "p = snprintf 1024 (dir @ ''/'' @ e)"
  proof -
    let ?s0 = "logr DEBUG ''[Crawler] Found entry: %s'' [ArgS p] s"
    have "crawler ?s0 \<noteq> None" using c by simp
    from unreadable_crawlDir[OF this assms(2)] obtain l where
      l: "crawlDir (Suc fuel) env ?s0 (Some p) = Inr (?s0\<lparr>trace := trace ?s0 @ l\<rparr>)" by blast
    have "only_logged s (?s0\<lparr>trace := trace ?s0 @ l\<rparr>)"
      by (auto simp: only_logged_iff logr_def)
    moreover have "graph_of (?s0\<lparr>trace := trace ?s0 @ l\<rparr>) = graph_of s"
      by (simp add: graph_of_def)
    moreover have "crawl_entries (Suc fuel) env s dir (e # es) =
               crawl_entries (Suc fuel) env (?s0\<lparr>trace := trace ?s0 @ l\<rparr>) dir es"
      using l h pe by (simp add: Let_def)
    ultimately show ?thesis by blast
  qed
  have D: "stat env p = None \<longrightarrow>
            crawlDir (Suc fuel) env s (Some p) =
              Inr (logr ERROR ''[Crawler] Failed to stat path: %s'' [ArgS p] s)"
    using c by simp
  have E: "stat env p = Some Directory \<and> opendir env p = None \<longrightarrow>
            crawlDir (Suc fuel) env s (Some p) =
              Inr (logr ERROR ''[Crawler] Failed to open directory: %s'' [ArgS p]
                     (logr INFO ''[Crawler] Opening directory: %s'' [ArgS p] s))"
    using c by (simp add: Let_def)
  have F: "stat env p = Some Regular \<and> read_file env p = None \<and>
          strrchr p CHR ''.'' = Some x \<and> \<not> skip_extension (tl x) \<longrightarrow>
            crawlDir (Suc fuel) env s (Some p) =
              Inr (logr ERROR ''[Crawler] Failed to open file: %s'' [ArgS p]
                     (logr INFO ''[Crawler] Attempting to process file: %s (extension: %s)''
                        [ArgS p, ArgS (tl x)]
                        (logr DEBUG ''[Crawler] Processing file: %s'' [ArgS p] s)))"
    using c by (simp add: processFile_def Let_def)
  from A B C D E F show ?thesis by blast
qed

text \<open>
  Claim C9. For a path with no dot \<^verbatim>\<open>processFile\<close> only logs that it skips the file (and does
  nothing at all without a crawler), whatever the file system and the extractors are: the
  graph is unchanged and no allocation is made, although \<^verbatim>\<open>languageType\<close> gives the default
  language \<^verbatim>\<open>LANG_RUST\<close> for such a path.
\<close>

theorem processFile_without_dot:
  assumes "CHR ''.'' \<notin> set p"
  shows "processFile env s (Some p) =
           (if crawler s = None then s
            else logr DEBUG ''[Crawler] Skipping file without extension: %s'' [ArgS p] s) \<and>
         graph_of (processFile env s (Some p)) = graph_of s \<and>
         malloc_results (processFile env s (Some p)) = malloc_results s \<and>
         languageType (Some p) = LANG_RUST"
proof -
  have n: "strrchr p CHR ''.'' = None"
    using assms by (induction p) (auto split: option.splits)
  then show ?thesis
    by (cases "crawler s") (simp_all add: processFile_def languageType_def)
qed

section \<open>Properties of the cross-reference resolver\<close>

lemma strstr_sublist: "strstr h n \<noteq> None \<longleftrightarrow> sublist n h"
proof (induction h)
  case Nil
  then show ?case by auto
next
  case (Cons a h)
  show ?case
  proof (cases "prefix n (a # h)")
    case True
    then show ?thesis by (auto simp: prefix_imp_sublist)
  next
    case False
    then show ?thesis using Cons by (auto simp: sublist_Cons_right)
  qed
qed

lemma malloc_results_resolve_dependency:
  "malloc_results (fst p) = [] \<Longrightarrow> malloc_results (fst (resolve_dependency m p)) = []"
  by (simp add: resolve_dependency_def Let_def malloc_empty split: option.splits)

lemma resolve_dependency_stamp:
  assumes "malloc_results s = []" "dependencies st = Some d"
  shows "dependencies (snd (resolve_dependency m (s, st))) = Some (stamp m d)"
  using assms
  by (auto simp: resolve_dependency_def Let_def malloc_empty stamp_def module_path_def
      snprintf_def split: option.splits)

lemma fold_resolve_stamp:
  "malloc_results s = [] \<Longrightarrow> dependencies st = Some d \<Longrightarrow>
   dependencies (snd (fold resolve_dependency records (s, st))) = Some (fold stamp records d)"
proof (induction records arbitrary: s st d)
  case Nil
  then show ?case by simp
next
  case (Cons m records)
  obtain s1 st1 where r: "resolve_dependency m (s, st) = (s1, st1)" by fastforce
  from malloc_results_resolve_dependency[of "(s, st)" m] Cons.prems r
  have m1: "malloc_results s1 = []" by simp
  from resolve_dependency_stamp[OF Cons.prems, of m] r
  have d1: "dependencies st1 = Some (stamp m d)" by simp
  from Cons.IH[OF m1 d1] r show ?case by simp
qed

lemma fold_stamp_no_match:
  "\<forall>r \<in> set rs. stamp r d = d \<Longrightarrow> fold stamp rs d = d"
  by (induction rs) auto

text \<open>
  Claim C2, amended. When the allocations succeed, one resolver pass over a structure with
  the dependency text \<open>d\<close> applies the stamp of every module record of the file in turn: a
  record whose target occurs in the text at hand puts its file path and a colon in front of
  it. So when exactly one record stamps (none before it matches \<open>d\<close>, none after it
  matches the stamped text) the result is the path of that record, a colon and \<open>d\<close>.
\<close>

theorem resolver_stamps_each_match:
  assumes "malloc_results s = []" and "dependencies st = Some d"
    and "analyzeModule env content grammar = records"
  shows "dependencies (snd (resolve_structure env content grammar st s)) =
           Some (fold stamp records d) \<and>
         (records = pre @ [m] @ post \<and> target m = Some t \<and> sublist t d \<and>
          (\<forall>r \<in> set pre. stamp r d = d) \<and>
          (\<forall>r \<in> set post. stamp r (module_path m @ '':'' @ d) = module_path m @ '':'' @ d) \<longrightarrow>
            dependencies (snd (resolve_structure env content grammar st s)) =
              Some (module_path m @ '':'' @ d))"
proof -
  have g: "dependencies (snd (resolve_structure env content grammar st s)) =
           Some (fold stamp records d)"
    using assms by (simp add: resolve_structure_def fold_resolve_stamp)
  have "fold stamp records d = module_path m @ '':'' @ d"
    if "records = pre @ [m] @ post" "target m = Some t" "sublist t d"
       "\<forall>r \<in> set pre. stamp r d = d"
       "\<forall>r \<in> set post. stamp r (module_path m @ '':'' @ d) = module_path m @ '':'' @ d"
  proof -
    from that(2,3) have "stamp m d = module_path m @ '':'' @ d"
      using strstr_sublist[of d t] by (auto simp: stamp_def)
    with that show ?thesis by (simp add: fold_stamp_no_match)
  qed
  with g show ?thesis by auto
qed

text \<open>The pass on the dependency text \<open>Base\<close> with the one module record of the file
  \<open>a.ext\<close> and the target \<open>Base\<close>.\<close>

theorem resolver_stamps_each_match_witness:
  "malloc_results (start_state [] 0) = [] \<and> dependencies base_structure = Some ''Base'' \<and>
   analyzeModule (import_env [base_record]) ''use Base;'' () = [base_record] \<and>
   [base_record] = [] @ [base_record] @ [] \<and> target base_record = Some ''Base'' \<and>
   sublist ''Base'' ''Base'' \<and>
   dependencies (snd (resolve_structure (import_env [base_record]) ''use Base;'' ()
                        base_structure (start_state [] 0))) = Some ''a.ext:Base''"
proof -
  have h: "malloc_results (start_state [] 0) = []" "dependencies base_structure = Some ''Base''"
    "analyzeModule (import_env [base_record]) ''use Base;'' () = [base_record]"
    by (simp_all add: start_state_def base_structure_def import_env_def)
  have k: "[base_record] = [] @ [base_record] @ []" "target base_record = Some ''Base''"
    "sublist ''Base'' ''Base''" "module_path base_record @ '':'' @ ''Base'' = ''a.ext:Base''"
    by (simp_all add: base_record_def module_path_def)
  note w = resolver_stamps_each_match[OF h, of "[]" base_record "[]" "''Base''", THEN conjunct2]
  have "dependencies (snd (resolve_structure (import_env [base_record]) ''use Base;'' ()
                        base_structure (start_state [] 0))) =
        Some (module_path base_record @ '':'' @ ''Base'')"
    using w k(1,2,3) by simp
  with h k show ?thesis by simp
qed

text \<open>With the import of \<open>Base\<close> found twice in the file, both records match and one pass
  stamps the text twice.\<close>

theorem resolver_single_stamp_counterexample:
  "base_record \<in> set (analyzeModule (import_env [base_record, base_record]) ''use Base;'' ()) \<and>
   target base_record = Some ''Base'' \<and> file_path base_record = Some ''a.ext'' \<and>
   dependencies base_structure = Some ''Base'' \<and> strstr ''Base'' ''Base'' \<noteq> None \<and>
   dependencies (snd (resolve_structure (import_env [base_record, base_record]) ''use Base;'' ()
                        base_structure (start_state [] 0))) = Some ''a.ext:a.ext:Base'' \<and>
   ''a.ext:a.ext:Base'' \<noteq> ''a.ext'' @ '':'' @ ''Base''"
  by (simp add: import_env_def base_record_def base_structure_def start_state_def
      resolve_structure_def resolve_dependency_def Let_def logr_def malloc_def snprintf_def)

section \<open>Properties of the crawl\<close>

lemmas crawl_eval =
  crawlDeps_def start_state_def example_env_def example_stat_def
  example_opendir_def example_read_file_def Let_def hidden_entry_def snprintf_def
  skip_directory_def dir_name_def processFile_def skip_extension_def strcasecmp_eq_def
  tolower_def logr_def malloc_def processLayer_def process_modules_def
  process_structures_def process_methods_def add_to_graph_def graphMethods_def
  record_node_def graph_of_def module_node_def include_record_def
  method_node_def
  languageType_def languageType_log_def ext_lower_def match_extension_def
  eval_nat_numeral

lemma crawl_deep:
  "map_sum id graph_of (crawlDeps 4 example_env (start_state [''deep''] 0)) =
     Inr [method_node ''deep/l1/l2/m.py'' [function_f]]"
  by (simp add: crawl_eval)

lemma crawl_unreadable_roots:
  "map_sum id graph_of
     (crawlDeps 2 example_env (start_state [''gone'', ''locked'', ''d/secret.c'', ''d''] 0)) =
     Inr [module_node ''d/a.c'' include_record]"
  by (simp add: crawl_eval)



lemma graph_of_tweak [simp]: "graph_of (tweak f l s) = graph_of s"
  by (cases "crawler s") (simp_all add: graph_of_def)








text \<open>
  Claim C8. A crawl from a state with another \<^verbatim>\<open>max_depth\<close> gives the same result with the
  other \<^verbatim>\<open>max_depth\<close> in it: the same fault or the same final state, so the same graph and the
  same trace (which names every path visited); the same holds for \<^verbatim>\<open>crawlDir\<close>.
\<close>

theorem max_depth_ignored:
  "crawlDeps fuel env (set_max_depth d s) = map_sum id (set_max_depth d) (crawlDeps fuel env s) \<and>
   map_sum id graph_of (crawlDeps fuel env (set_max_depth d s)) =
     map_sum id graph_of (crawlDeps fuel env s) \<and>
   map_sum id trace (crawlDeps fuel env (set_max_depth d s)) =
     map_sum id trace (crawlDeps fuel env s) \<and>
   crawlDir fuel env (set_max_depth d s) path =
     map_sum id (set_max_depth d) (crawlDir fuel env s path)"
proof -
  have t: "trace (tweak f [] x) = trace x" for f x by (simp add: tweak_def)
  have "map_sum id graph_of (map_sum id (tweak (\<lambda>_. d) []) r) = map_sum id graph_of r"
    and "map_sum id trace (map_sum id (tweak (\<lambda>_. d) []) r) = map_sum id trace r"
    for r :: "fault + state"
    by (cases r; simp add: t)+
  then show ?thesis
    by (simp add: set_max_depth_def[abs_def] tweak_crawlDeps tweak_crawl)
qed

section \<open>Concrete runs\<close>

text \<open>\<^verbatim>\<open>graphMethods\<close> on the memory with one node: the new node at address 1 is the head and
  the node at address 0 follows it. The merge of a record into the empty memory makes the
  node returned (at address 2) the root; into the memory with one node it leaves the head
  at address 0.\<close>

theorem merge_head_witness:
  "linked (allocated one_node_memory) (graph_head one_node_memory)
     [(0, record_node include_record)] \<and>
   allocated one_node_memory 1 = None \<and> [function_f] \<noteq> [] \<and>
   graph_head (graphMethods_at (Some 1) (Some ''m.py'') [function_f] one_node_memory) = Some 1 \<and>
   allocated (graphMethods_at (Some 1) (Some ''m.py'') [function_f] one_node_memory) 1 =
     Some \<lparr>node_fields = method_node ''m.py'' [function_f], next = Some 0\<rparr> \<and>
   linked (allocated (graphMethods_at (Some 1) (Some ''m.py'') [function_f] one_node_memory))
     (graph_head (graphMethods_at (Some 1) (Some ''m.py'') [function_f] one_node_memory))
     [(1, method_node ''m.py'' [function_f]), (0, record_node include_record)] \<and>
   crawler (graph_state [record_node include_record]) \<noteq> None \<and>
   malloc_succeeds (graph_state [record_node include_record]) \<and>
   graph_of (graphMethods (graph_state [record_node include_record]) (Some ''m.py'')
               [function_f]) =
     [method_node ''m.py'' [function_f], record_node include_record] \<and>
   graph_head one_node_memory \<noteq> None \<and>
   graph_head (add_to_graph_at (\<lambda>h e. (h(2 \<mapsto> \<lparr>node_fields = record_node e, next = None\<rparr>), Some 2))
                 (\<lambda>h p e. h(2 \<mapsto> \<lparr>node_fields = record_node e, next = Some p\<rparr>))
                 base_record one_node_memory) = Some 0 \<and>
   graph_head \<lparr>allocated = (\<lambda>a. None), graph_head = None\<rparr> = None \<and>
   graph_head (add_to_graph_at (\<lambda>h e. (h(2 \<mapsto> \<lparr>node_fields = record_node e, next = None\<rparr>), Some 2))
                 (\<lambda>h p e. h(2 \<mapsto> \<lparr>node_fields = record_node e, next = Some p\<rparr>))
                 base_record \<lparr>allocated = (\<lambda>a. None), graph_head = None\<rparr>) = Some 2"
proof -
  have h: "linked (allocated one_node_memory) (graph_head one_node_memory)
             [(0, record_node include_record)]"
    "allocated one_node_memory 1 = None" "[function_f] \<noteq> []"
    "graph_head one_node_memory = Some 0"
    by (simp_all add: one_node_memory_def)
  have c: "crawler (graph_state [record_node include_record]) \<noteq> None"
    "malloc_succeeds (graph_state [record_node include_record])"
    "graph_of (graph_state [record_node include_record]) = [record_node include_record]"
    by (simp_all add: graph_state_def malloc_succeeds_def graph_of_def)
  note w = merge_head[OF h(1,2,3), where fp = "''m.py''"
      and s = "graph_state [record_node include_record]"
      and create = "\<lambda>h e. (h(2 \<mapsto> \<lparr>node_fields = record_node e, next = None\<rparr>), Some 2)"
      and graph = "\<lambda>h p e. h(2 \<mapsto> \<lparr>node_fields = record_node e, next = Some p\<rparr>)"
      and extracted = base_record and env = example_env and created = "''created''"
      and added = "''added''"]
  from w have l: "linked
      (allocated (graphMethods_at (Some 1) (Some ''m.py'') [function_f] one_node_memory))
      (graph_head (graphMethods_at (Some 1) (Some ''m.py'') [function_f] one_node_memory))
      [(1, method_node ''m.py'' [function_f]), (0, record_node include_record)]"
    by blast
  from w h(4) c have r:
    "graph_head (graphMethods_at (Some 1) (Some ''m.py'') [function_f] one_node_memory) = Some 1"
    "allocated (graphMethods_at (Some 1) (Some ''m.py'') [function_f] one_node_memory) 1 =
       Some \<lparr>node_fields = method_node ''m.py'' [function_f], next = Some 0\<rparr>"
    "graph_of (graphMethods (graph_state [record_node include_record]) (Some ''m.py'')
               [function_f]) =
       [method_node ''m.py'' [function_f], record_node include_record]"
    "graph_head (add_to_graph_at
                   (\<lambda>h e. (h(2 \<mapsto> \<lparr>node_fields = record_node e, next = None\<rparr>), Some 2))
                   (\<lambda>h p e. h(2 \<mapsto> \<lparr>node_fields = record_node e, next = Some p\<rparr>))
                   base_record one_node_memory) = Some 0"
    by simp_all
  have e: "linked (allocated \<lparr>allocated = (\<lambda>a. None), graph_head = None\<rparr>)
             (graph_head \<lparr>allocated = (\<lambda>a. None), graph_head = None\<rparr>) []"
    "allocated \<lparr>allocated = (\<lambda>a. None), graph_head = None\<rparr> 1 = None"
    by simp_all
  note w0 = merge_head[OF e h(3), where fp = "''m.py''"
      and create = "\<lambda>h e. (h(2 \<mapsto> \<lparr>node_fields = record_node e, next = None\<rparr>), Some 2)"
      and graph = "\<lambda>h p e. h(2 \<mapsto> \<lparr>node_fields = record_node e, next = Some p\<rparr>)"
      and extracted = base_record and s = "graph_state []" and env = example_env
      and created = "''created''" and added = "''added''"]
  from w0 have r0:
    "graph_head \<lparr>allocated = (\<lambda>a. None), graph_head = None\<rparr> = None"
    "graph_head (add_to_graph_at
                   (\<lambda>h e. (h(2 \<mapsto> \<lparr>node_fields = record_node e, next = None\<rparr>), Some 2))
                   (\<lambda>h p e. h(2 \<mapsto> \<lparr>node_fields = record_node e, next = Some p\<rparr>))
                   base_record \<lparr>allocated = (\<lambda>a. None), graph_head = None\<rparr>) = Some 2"
    by simp_all
  from h c l r r0 show ?thesis by blast
qed

text \<open>Whatever the two functions of \<^verbatim>\<open>analyzers.h\<close> do, after the merge of a record into the
  memory with one node the head is not a node that was allocated by the merge, so the new
  node is not the head.\<close>

theorem module_merge_head_counterexample:
  "linked (allocated one_node_memory) (graph_head one_node_memory)
     [(0, record_node include_record)] \<and>
   \<not> (\<exists>create graph a.
         graph_head (add_to_graph_at create graph base_record one_node_memory) = Some a \<and>
         allocated one_node_memory a = None)"
  by (auto simp: one_node_memory_def add_to_graph_at_def)

text \<open>The directory that cannot be opened, and a crawl whose first three roots are
  unreadable: the fourth is crawled.\<close>

theorem unreadable_path_skipped_witness:
  "crawler (start_state [''locked''] 0) \<noteq> None \<and> unreadable example_env ''locked'' \<and>
   unreadable example_env ''gone'' \<and> unreadable example_env ''d/secret.c'' \<and>
   (\<exists>s1. crawlDir (Suc 0) example_env (start_state [''locked''] 0) (Some ''locked'') = Inr s1 \<and>
         only_logged (start_state [''locked''] 0) s1 \<and>
         trace s1 \<noteq> trace (start_state [''locked''] 0) \<and>
         graph_of s1 = graph_of (start_state [''locked''] 0)) \<and>
   crawlDir (Suc 0) example_env (start_state [''locked''] 0) (Some ''locked'') =
     Inr (logr ERROR ''[Crawler] Failed to open directory: %s'' [ArgS ''locked'']
            (logr INFO ''[Crawler] Opening directory: %s'' [ArgS ''locked'']
               (start_state [''locked''] 0))) \<and>
   map_sum id graph_of
     (crawlDeps 2 example_env (start_state [''gone'', ''locked'', ''d/secret.c'', ''d''] 0)) =
     Inr [module_node ''d/a.c'' include_record]"
proof -
  have h: "crawler (start_state [''locked''] 0) \<noteq> None" "unreadable example_env ''locked''"
    "unreadable example_env ''gone''" "unreadable example_env ''d/secret.c''"
    "stat example_env ''locked'' = Some Directory \<and> opendir example_env ''locked'' = None"
    by (simp_all add: start_state_def unreadable_def example_env_def example_stat_def
        example_opendir_def example_read_file_def)
  from unreadable_path_skipped[OF h(1,2), of 0] h crawl_unreadable_roots
  show ?thesis by blast
qed

text \<open>A file without an extension.\<close>

theorem processFile_without_dot_witness:
  "CHR ''.'' \<notin> set ''d/Makefile'' \<and>
   processFile example_env (start_state [''d''] 0) (Some ''d/Makefile'') =
     logr DEBUG ''[Crawler] Skipping file without extension: %s'' [ArgS ''d/Makefile'']
       (start_state [''d''] 0) \<and>
   graph_of (processFile example_env (start_state [''d''] 0) (Some ''d/Makefile'')) = [] \<and>
   languageType (Some ''d/Makefile'') = LANG_RUST"
proof -
  have h: "CHR ''.'' \<notin> set ''d/Makefile''" by simp
  have c: "crawler (start_state [''d''] 0) \<noteq> None" "graph_of (start_state [''d''] 0) = []"
    by (simp_all add: start_state_def graph_of_def)
  from processFile_without_dot[OF h, of example_env "start_state [''d''] 0"] h c
  show ?thesis by simp
qed

lemma Inr_projr: "map_sum f g x = Inr y \<Longrightarrow> x = Inr (projr x) \<and> g (projr x) = y"
  by (cases x) auto

text \<open>The node of the method layer in the graph of the crawl of \<open>deep\<close>.\<close>

theorem method_nodes_well_formed_witness:
  "keeps_method_nodes example_env \<and> graph_of (start_state [''deep''] 0) = [] \<and>
   crawlDeps 4 example_env (start_state [''deep''] 0) =
     Inr (projr (crawlDeps 4 example_env (start_state [''deep''] 0))) \<and>
   graph_of (projr (crawlDeps 4 example_env (start_state [''deep''] 0))) =
     [method_node ''deep/l1/l2/m.py'' [function_f]] \<and>
   level (method_node ''deep/l1/l2/m.py'' [function_f]) = LAYER_METHOD \<and>
   dep_methods (method_node ''deep/l1/l2/m.py'' [function_f]) \<noteq> [] \<and>
   method_count (method_node ''deep/l1/l2/m.py'' [function_f]) =
     int (length (dep_methods (method_node ''deep/l1/l2/m.py'' [function_f]))) \<and>
   graphMethods (start_state [''deep''] 0) (Some ''x.py'') [] = start_state [''deep''] 0 \<and>
   graphMethods (start_state [''deep''] 0) None [function_f] = start_state [''deep''] 0"
proof -
  let ?s = "start_state [''deep''] 0"
  let ?r = "crawlDeps 4 example_env ?s"
  let ?n = "method_node ''deep/l1/l2/m.py'' [function_f]"
  have k: "keeps_method_nodes example_env"
    by (simp add: keeps_method_nodes_def example_env_def method_nodes_ok_def
        method_node_ok_def record_node_def)
  have g: "graph_of ?s = []" by (simp add: start_state_def graph_of_def)
  from Inr_projr[OF crawl_deep] have r: "?r = Inr (projr ?r)" and gr: "graph_of (projr ?r) = [?n]"
    by simp_all
  have l: "level ?n = LAYER_METHOD" by (simp add: method_node_def)
  note w = method_nodes_well_formed[where s = ?s and fpath = "Some ''x.py''" and ms = "[]"
      and env = example_env and fuel = 4 and s' = "projr ?r"]
  from w[THEN conjunct2, THEN conjunct2, THEN conjunct2, THEN conjunct2] k g r gr l
  have a: "dep_methods ?n \<noteq> [] \<and> method_count ?n = int (length (dep_methods ?n))"
    by simp
  from w[THEN conjunct1] have b: "graphMethods ?s (Some ''x.py'') [] = ?s" by simp
  from method_nodes_well_formed[of ?s None "[function_f]", THEN conjunct1]
  have c: "graphMethods ?s None [function_f] = ?s" by simp
  from k g r gr l a b c show ?thesis by simp
qed


text \<open>With \<^verbatim>\<open>max_depth\<close> 0 as with 7 the crawl reaches the file three directories down.\<close>

theorem max_depth_ignored_witness:
  "crawlDeps 4 example_env (set_max_depth 0 (start_state [''deep''] 7)) =
     map_sum id (set_max_depth 0) (crawlDeps 4 example_env (start_state [''deep''] 7)) \<and>
   set_max_depth 0 (start_state [''deep''] 7) = start_state [''deep''] 0 \<and>
   map_sum id graph_of (crawlDeps 4 example_env (start_state [''deep''] 7)) =
     Inr [method_node ''deep/l1/l2/m.py'' [function_f]]"
proof -
  have e: "set_max_depth 0 (start_state [''deep''] 7) = start_state [''deep''] 0"
    by (simp add: set_max_depth_def tweak_def start_state_def)
  from max_depth_ignored[of 4 example_env 0 "start_state [''deep''] 7" None] e crawl_deep
  show ?thesis by simp
qed

end
